theory Spec2Isabelle
  imports Main
begin

section \<open>Data model\<close>

text \<open>
  The structures of \<^verbatim>\<open>specV1\<close> that \<^verbatim>\<open>service/application.go\<close> reads and writes.
  Field names carry a prefix because a field name is global in a theory.  A Go pointer
  field that may be \<^verbatim>\<open>nil\<close> (\<^verbatim>\<open>Volume.Config\<close>, \<^verbatim>\<open>Volume.Secret\<close>) is an
  option.  The object references are held by value: distinct volumes are taken to point
  to distinct reference objects.
\<close>

record objectReference =
  ref_Name :: string
  ref_Version :: string

record volume =
  vol_Name :: string
  vol_Config :: "objectReference option"
  vol_Secret :: "objectReference option"

record volumeMount =
  vm_Name :: string

record service =
  svc_Name :: string
  svc_VolumeMounts :: "volumeMount list"

record application =
  app_Namespace :: string
  app_Name :: string
  app_Version :: string
  app_Services :: "service list"
  app_Volumes :: "volume list"

record config =
  cfg_Name :: string
  cfg_Version :: string

record secret =
  sec_Name :: string
  sec_Version :: string

subsection \<open>Errors\<close>

text \<open>
  \<^verbatim>\<open>common.Error(code, fields...)\<close> builds a coded error from a code and a list of
  \<^verbatim>\<open>common.Field(key, value)\<close>.  An error that a collaborator hands back is known to
  the service only through its \<^verbatim>\<open>Error()\<close> text.
\<close>

datatype errcode = ErrResourceNotFound | ErrAppNameConflict | ErrVolumeNotFoundWhenMount

type_synonym field = "string \<times> string"

datatype error =
    CommonError errcode "field list"
  | ExternalError string

definition common_Field :: "string \<Rightarrow> string \<Rightarrow> field" where
  [simp]: "common_Field k v = (k, v)"

section \<open>validName\<close>

text \<open>
  The two Go maps \<^verbatim>\<open>sf\<close> and \<^verbatim>\<open>vf\<close> are maps from names to \<^verbatim>\<open>bool\<close>; the test
  \<^verbatim>\<open>_, ok := vf[n]\<close> is \<open>vf n \<noteq> None\<close>.  Each \<^verbatim>\<open>for\<close> loop is a recursion over
  the slice, the \<^verbatim>\<open>return\<close> inside it an early exit.
\<close>

fun validName_volumes :: "volume list \<Rightarrow> (string \<rightharpoonup> bool) \<Rightarrow> error + (string \<rightharpoonup> bool)" where
  "validName_volumes [] vf = Inr vf"
| "validName_volumes (v # vs) vf =
     (if vf (vol_Name v) \<noteq> None
      then Inl (CommonError ErrAppNameConflict
                  [common_Field ''where'' ''Volumes[]'', common_Field ''name'' (vol_Name v)])
      else validName_volumes vs (vf(vol_Name v \<mapsto> True)))"

fun validName_mounts :: "volumeMount list \<Rightarrow> (string \<rightharpoonup> bool) \<Rightarrow> error option" where
  "validName_mounts [] vf = None"
| "validName_mounts (vm # vms) vf =
     (if vf (vm_Name vm) = None
      then Some (CommonError ErrVolumeNotFoundWhenMount [common_Field ''name'' (vm_Name vm)])
      else validName_mounts vms vf)"

fun validName_services ::
  "service list \<Rightarrow> (string \<rightharpoonup> bool) \<Rightarrow> (string \<rightharpoonup> bool) \<Rightarrow> error option" where
  "validName_services [] sf vf = None"
| "validName_services (s # ss) sf vf =
     (if sf (svc_Name s) \<noteq> None
      then Some (CommonError ErrAppNameConflict
                   [common_Field ''where'' ''Services[]'', common_Field ''name'' (svc_Name s)])
      else (case validName_mounts (svc_VolumeMounts s) vf of
              Some err \<Rightarrow> Some err
            | None \<Rightarrow> validName_services ss (sf(svc_Name s \<mapsto> True)) vf))"

definition validName :: "application \<Rightarrow> error option" where
  "validName app =
     (case validName_volumes (app_Volumes app) Map.empty of
        Inl err \<Rightarrow> Some err
      | Inr vf \<Rightarrow> validName_services (app_Services app) Map.empty vf)"

section \<open>Collaborators\<close>

text \<open>
  The service holds three collaborators behind interfaces: the resource store
  (\<^verbatim>\<open>a.storage\<close>), the history store (\<^verbatim>\<open>a.dbStorage\<close>) and the index service
  (\<^verbatim>\<open>a.indexService\<close>).  Nothing is known about them but their signatures, so each
  method is an arbitrary function on an abstract state \<open>'s\<close> that they share: it takes
  the state and gives back its answer and the next state.  The package \<^verbatim>\<open>common\<close> is
  not part of the sources at hand either: \<^verbatim>\<open>RandString\<close>, the constant
  \<^verbatim>\<open>KeyContextNamespace\<close> and the text of a coded error are parameters too.
  A collaborator is taken not to write through the pointers it is handed.
\<close>

record 's deps =
  storage_GetApplication :: "string \<Rightarrow> string \<Rightarrow> string \<Rightarrow> 's \<Rightarrow> (error + application) \<times> 's"
  storage_CreateApplication :: "string \<Rightarrow> application \<Rightarrow> 's \<Rightarrow> (error + application) \<times> 's"
  storage_UpdateApplication :: "string \<Rightarrow> application \<Rightarrow> 's \<Rightarrow> (error + application) \<times> 's"
  storage_DeleteApplication :: "string \<Rightarrow> string \<Rightarrow> 's \<Rightarrow> error option \<times> 's"
  storage_GetConfig :: "string \<Rightarrow> string \<Rightarrow> string \<Rightarrow> 's \<Rightarrow> (error + config) \<times> 's"
  storage_CreateConfig :: "string \<Rightarrow> config \<Rightarrow> 's \<Rightarrow> (error + config) \<times> 's"
  storage_GetSecret :: "string \<Rightarrow> string \<Rightarrow> string \<Rightarrow> 's \<Rightarrow> (error + secret) \<times> 's"
  dbStorage_CreateApplication :: "application \<Rightarrow> 's \<Rightarrow> error option \<times> 's"
  dbStorage_DeleteApplication :: "string \<Rightarrow> string \<Rightarrow> string \<Rightarrow> 's \<Rightarrow> error option \<times> 's"
  indexService_RefreshConfigIndexByApp :: "string \<Rightarrow> string \<Rightarrow> string list \<Rightarrow> 's \<Rightarrow> error option \<times> 's"
  indexService_RefreshSecretIndexByApp :: "string \<Rightarrow> string \<Rightarrow> string list \<Rightarrow> 's \<Rightarrow> error option \<times> 's"
  common_RandString :: "nat \<Rightarrow> 's \<Rightarrow> string \<times> 's"
  common_KeyContextNamespace :: string
  common_ErrorText :: "errcode \<Rightarrow> field list \<Rightarrow> string"

text \<open>
  What the service does to its collaborators is observed through a trace: every call
  is appended with its arguments, and so is every line written to the error log.
\<close>

datatype event =
    StorageGetApplication string string string
  | StorageCreateApplication string application
  | StorageUpdateApplication string application
  | StorageDeleteApplication string string
  | StorageGetConfig string string string
  | StorageCreateConfig string config
  | StorageGetSecret string string string
  | DBCreateApplication application
  | DBDeleteApplication string string string
  | RefreshConfigIndexByApp string string "string list"
  | RefreshSecretIndexByApp string string "string list"
  | RandString nat
  | LogError string

record 's world =
  w_state :: 's
  w_trace :: "event list"

definition call :: "event \<Rightarrow> ('s \<Rightarrow> 'r \<times> 's) \<Rightarrow> 's world \<Rightarrow> 'r \<times> 's world" where
  "call ev f w =
     (case f (w_state w) of (r, s') \<Rightarrow> (r, \<lparr>w_state = s', w_trace = w_trace w @ [ev]\<rparr>))"

definition logError :: "string \<Rightarrow> 's world \<Rightarrow> 's world" where
  "logError msg w = \<lparr>w_state = w_state w, w_trace = w_trace w @ [LogError msg]\<rparr>"

section \<open>Get\<close>

text \<open>\<^verbatim>\<open>strings.HasPrefix\<close> and \<^verbatim>\<open>strings.Contains\<close> on byte strings.\<close>

fun HasPrefix :: "string \<Rightarrow> string \<Rightarrow> bool" where
  "HasPrefix s [] = True"
| "HasPrefix [] (p # ps) = False"
| "HasPrefix (c # s) (p # ps) = (c = p \<and> HasPrefix s ps)"

fun Contains :: "string \<Rightarrow> string \<Rightarrow> bool" where
  "Contains [] substr = HasPrefix [] substr"
| "Contains (c # s) substr = (HasPrefix (c # s) substr \<or> Contains s substr)"

text \<open>\<^verbatim>\<open>err.Error()\<close>.\<close>

definition Error :: "'s deps \<Rightarrow> error \<Rightarrow> string" where
  "Error d err =
     (case err of
        ExternalError t \<Rightarrow> t
      | CommonError c fs \<Rightarrow> common_ErrorText d c fs)"

text \<open>
  An error comes with no application: where the Go function returns the pair
  \<^verbatim>\<open>app, err\<close> with an error that is not a not-found error, the model keeps the
  error.  \<^verbatim>\<open>List\<close> hands its arguments to the resource store and returns what it
  answers; it and the constructor \<^verbatim>\<open>NewApplicationService\<close> take no part in what
  follows.
\<close>

definition Get ::
  "'s deps \<Rightarrow> string \<Rightarrow> string \<Rightarrow> string \<Rightarrow> 's world \<Rightarrow> (error + application) \<times> 's world" where
  "Get d namespace name version w =
     (case call (StorageGetApplication namespace name version)
             (storage_GetApplication d namespace name version) w of
        (Inl err, w1) \<Rightarrow>
          if Contains (Error d err) ''not found''
          then (Inl (CommonError ErrResourceNotFound
                       [common_Field ''type'' ''app'', common_Field ''name'' name]), w1)
          else (Inl err, w1)
      | (Inr app, w1) \<Rightarrow> (Inr app, w1))"

section \<open>getConfigsAndSecrets\<close>

text \<open>
  The function writes the fetched versions through the pointers \<^verbatim>\<open>vol.Config\<close> and
  \<^verbatim>\<open>vol.Secret\<close>, so the model hands back the volumes as the caller sees them
  afterwards, next to Go's three results \<^verbatim>\<open>(configs, secrets, err)\<close>.  The two
  \<^verbatim>\<open>if\<close> blocks of the loop body come first.
\<close>

definition getConfigsAndSecrets_config ::
  "'s deps \<Rightarrow> string \<Rightarrow> volume \<Rightarrow> string list \<Rightarrow> 's world
     \<Rightarrow> error option \<times> volume \<times> string list \<times> 's world" where
  "getConfigsAndSecrets_config d namespace vol configs w =
     (case vol_Config vol of
        None \<Rightarrow> (None, vol, configs, w)
      | Some ref \<Rightarrow>
          (case call (StorageGetConfig namespace (ref_Name ref) '''')
                  (storage_GetConfig d namespace (ref_Name ref) '''') w of
             (Inl err, w1) \<Rightarrow> (Some err, vol, configs, w1)
           | (Inr config, w1) \<Rightarrow>
               (None,
                vol\<lparr>vol_Config := Some (ref\<lparr>ref_Version := cfg_Version config\<rparr>)\<rparr>,
                configs @ [ref_Name ref], w1)))"

definition getConfigsAndSecrets_secret ::
  "'s deps \<Rightarrow> string \<Rightarrow> volume \<Rightarrow> string list \<Rightarrow> 's world
     \<Rightarrow> error option \<times> volume \<times> string list \<times> 's world" where
  "getConfigsAndSecrets_secret d namespace vol secrets w =
     (case vol_Secret vol of
        None \<Rightarrow> (None, vol, secrets, w)
      | Some ref \<Rightarrow>
          (case call (StorageGetSecret namespace (ref_Name ref) '''')
                  (storage_GetSecret d namespace (ref_Name ref) '''') w of
             (Inl err, w1) \<Rightarrow> (Some err, vol, secrets, w1)
           | (Inr secret, w1) \<Rightarrow>
               (None,
                vol\<lparr>vol_Secret := Some (ref\<lparr>ref_Version := sec_Version secret\<rparr>)\<rparr>,
                secrets @ [ref_Name ref], w1)))"

fun getConfigsAndSecrets_loop ::
  "'s deps \<Rightarrow> string \<Rightarrow> volume list \<Rightarrow> string list \<Rightarrow> string list \<Rightarrow> 's world
     \<Rightarrow> (string list \<times> string list \<times> error option) \<times> volume list \<times> 's world" where
  "getConfigsAndSecrets_loop d namespace [] configs secrets w =
     ((configs, secrets, None), [], w)"
| "getConfigsAndSecrets_loop d namespace (vol # vols) configs secrets w =
     (case getConfigsAndSecrets_config d namespace vol configs w of
        (Some err, vol1, configs1, w1) \<Rightarrow> (([], [], Some err), vol1 # vols, w1)
      | (None, vol1, configs1, w1) \<Rightarrow>
          (case getConfigsAndSecrets_secret d namespace vol1 secrets w1 of
             (Some err, vol2, secrets2, w2) \<Rightarrow> (([], [], Some err), vol2 # vols, w2)
           | (None, vol2, secrets2, w2) \<Rightarrow>
               (case getConfigsAndSecrets_loop d namespace vols configs1 secrets2 w2 of
                  (res, vols', w3) \<Rightarrow> (res, vol2 # vols', w3))))"

definition getConfigsAndSecrets ::
  "'s deps \<Rightarrow> string \<Rightarrow> application \<Rightarrow> 's world
     \<Rightarrow> (string list \<times> string list \<times> error option) \<times> application \<times> 's world" where
  "getConfigsAndSecrets d namespace app w =
     (case getConfigsAndSecrets_loop d namespace (app_Volumes app) [] [] w of
        (res, vols', w') \<Rightarrow> (res, app\<lparr>app_Volumes := vols'\<rparr>, w'))"

section \<open>Create, Update, Delete\<close>

text \<open>
  \<^verbatim>\<open>Create\<close> and \<^verbatim>\<open>Update\<close> take the application by pointer.  Each model gives
  back three things: what the Go function returns, the caller's application as it
  stands after the call, and the world.

  In \<^verbatim>\<open>Create\<close> the \<^verbatim>\<open>err\<close> of \<^verbatim>\<open>getConfigsAndSecrets\<close> is assigned anew by the
  next statement before anything reads it, so only \<^verbatim>\<open>configs\<close> and \<^verbatim>\<open>secrets\<close>
  are used.
\<close>

definition Create ::
  "'s deps \<Rightarrow> string \<Rightarrow> application \<Rightarrow> 's world
     \<Rightarrow> (error + application) \<times> application \<times> 's world" where
  "Create d namespace app w =
     (case getConfigsAndSecrets d namespace app w of
        ((configs, secrets, err), app1, w1) \<Rightarrow>
     (case call (RefreshConfigIndexByApp namespace (app_Name app1) configs)
             (indexService_RefreshConfigIndexByApp d namespace (app_Name app1) configs) w1 of
        (Some err, w2) \<Rightarrow> (Inl err, app1, w2)
      | (None, w2) \<Rightarrow>
     (case call (RefreshSecretIndexByApp namespace (app_Name app1) secrets)
             (indexService_RefreshSecretIndexByApp d namespace (app_Name app1) secrets) w2 of
        (Some err, w3) \<Rightarrow> (Inl err, app1, w3)
      | (None, w3) \<Rightarrow>
     (case call (StorageCreateApplication namespace app1)
             (storage_CreateApplication d namespace app1) w3 of
        (Inl err, w4) \<Rightarrow> (Inl err, app1, w4)
      | (Inr created, w4) \<Rightarrow>
     (case call (DBCreateApplication created) (dbStorage_CreateApplication d created) w4 of
        (Some err, w5) \<Rightarrow> (Inr created, app1, logError ''store application to db error'' w5)
      | (None, w5) \<Rightarrow> (Inr created, app1, w5))))))"

definition Update ::
  "'s deps \<Rightarrow> string \<Rightarrow> application \<Rightarrow> 's world
     \<Rightarrow> (error + application) \<times> application \<times> 's world" where
  "Update d namespace app w =
     (case validName app of
        Some err \<Rightarrow> (Inl err, app, w)
      | None \<Rightarrow>
     (case getConfigsAndSecrets d namespace app w of
        ((configs, secrets, Some err), app1, w1) \<Rightarrow> (Inl err, app1, w1)
      | ((configs, secrets, None), app1, w1) \<Rightarrow>
     (case call (StorageUpdateApplication namespace app1)
             (storage_UpdateApplication d namespace app1) w1 of
        (Inl err, w2) \<Rightarrow> (Inl err, app1, w2)
      | (Inr newApp, w2) \<Rightarrow>
     (case call (RefreshConfigIndexByApp namespace (app_Name newApp) configs)
             (indexService_RefreshConfigIndexByApp d namespace (app_Name newApp) configs) w2 of
        (Some err, w3) \<Rightarrow> (Inl err, app1, w3)
      | (None, w3) \<Rightarrow>
     (case call (RefreshSecretIndexByApp namespace (app_Name newApp) secrets)
             (indexService_RefreshSecretIndexByApp d namespace (app_Name newApp) secrets) w3 of
        (Some err, w4) \<Rightarrow> (Inl err, app1, w4)
      | (None, w4) \<Rightarrow>
          if app_Version app1 \<noteq> app_Version newApp
          then (case call (DBCreateApplication newApp) (dbStorage_CreateApplication d newApp) w4 of
                  (Some err, w5) \<Rightarrow>
                    (Inr newApp, app1, logError ''store application to db error'' w5)
                | (None, w5) \<Rightarrow> (Inr newApp, app1, w5))
          else (Inr newApp, app1, w4))))))"

definition Delete ::
  "'s deps \<Rightarrow> string \<Rightarrow> string \<Rightarrow> string \<Rightarrow> 's world \<Rightarrow> error option \<times> 's world" where
  "Delete d namespace name version w =
     (case call (StorageDeleteApplication namespace name)
             (storage_DeleteApplication d namespace name) w of
        (Some err, w1) \<Rightarrow> (Some err, w1)
      | (None, w1) \<Rightarrow>
     (case (case call (RefreshConfigIndexByApp namespace name [])
                  (indexService_RefreshConfigIndexByApp d namespace name []) w1 of
              (Some err, w2) \<Rightarrow> logError ''Application clean config index error'' w2
            | (None, w2) \<Rightarrow> w2) of w2 \<Rightarrow>
     (case (case call (RefreshSecretIndexByApp namespace name [])
                  (indexService_RefreshSecretIndexByApp d namespace name []) w2 of
              (Some err, w3) \<Rightarrow> logError ''Application clean secret index error'' w3
            | (None, w3) \<Rightarrow> w3) of w3 \<Rightarrow>
     (case call (DBDeleteApplication namespace name version)
             (dbStorage_DeleteApplication d namespace name version) w3 of
        (Some err, w4) \<Rightarrow> (None, logError ''delete application history error'' w4)
      | (None, w4) \<Rightarrow> (None, w4)))))"

section \<open>CreateWithBase\<close>





section \<open>Notions used to state the properties\<close>

text \<open>The names of the Configs and of the Secrets that a list of volumes refers to.\<close>

definition configNames :: "volume list \<Rightarrow> string list" where
  "configNames vols = map ref_Name (List.map_filter vol_Config vols)"

definition secretNames :: "volume list \<Rightarrow> string list" where
  "secretNames vols = map ref_Name (List.map_filter vol_Secret vols)"

text \<open>The names of the volumes, of the services and of all mounts of an application.\<close>

definition volumeNames :: "application \<Rightarrow> string list" where
  "volumeNames app = map vol_Name (app_Volumes app)"

definition serviceNames :: "application \<Rightarrow> string list" where
  "serviceNames app = map svc_Name (app_Services app)"

definition mountNames :: "application \<Rightarrow> string list" where
  "mountNames app = concat (map (\<lambda>s. map vm_Name (svc_VolumeMounts s)) (app_Services app))"

text \<open>
  A volume with the version of each reference replaced by the one the store holds in
  state \<open>s\<close>, and a volume with the versions blanked: two volumes agree on the latter
  when they differ in nothing but the versions of their references.
\<close>

definition fetchedConfigVersion :: "'s deps \<Rightarrow> string \<Rightarrow> 's \<Rightarrow> objectReference \<Rightarrow> objectReference" where
  "fetchedConfigVersion d namespace s ref =
     (case fst (storage_GetConfig d namespace (ref_Name ref) '''' s) of
        Inl err \<Rightarrow> ref
      | Inr config \<Rightarrow> ref\<lparr>ref_Version := cfg_Version config\<rparr>)"

definition fetchedSecretVersion :: "'s deps \<Rightarrow> string \<Rightarrow> 's \<Rightarrow> objectReference \<Rightarrow> objectReference" where
  "fetchedSecretVersion d namespace s ref =
     (case fst (storage_GetSecret d namespace (ref_Name ref) '''' s) of
        Inl err \<Rightarrow> ref
      | Inr secret \<Rightarrow> ref\<lparr>ref_Version := sec_Version secret\<rparr>)"

definition withFetchedVersions :: "'s deps \<Rightarrow> string \<Rightarrow> 's \<Rightarrow> volume \<Rightarrow> volume" where
  "withFetchedVersions d namespace s vol =
     vol\<lparr>vol_Config := map_option (fetchedConfigVersion d namespace s) (vol_Config vol),
         vol_Secret := map_option (fetchedSecretVersion d namespace s) (vol_Secret vol)\<rparr>"

definition blankVersions :: "volume \<Rightarrow> volume" where
  "blankVersions vol =
     vol\<lparr>vol_Config := map_option (\<lambda>ref. ref\<lparr>ref_Version := ''''\<rparr>) (vol_Config vol),
         vol_Secret := map_option (\<lambda>ref. ref\<lparr>ref_Version := ''''\<rparr>) (vol_Secret vol)\<rparr>"

text \<open>The events that are calls to the resource store.\<close>

fun isStorageCall :: "event \<Rightarrow> bool" where
  "isStorageCall (StorageGetApplication ns n v) = True"
| "isStorageCall (StorageCreateApplication ns a) = True"
| "isStorageCall (StorageUpdateApplication ns a) = True"
| "isStorageCall (StorageDeleteApplication ns n) = True"
| "isStorageCall (StorageGetConfig ns n v) = True"
| "isStorageCall (StorageCreateConfig ns c) = True"
| "isStorageCall (StorageGetSecret ns n v) = True"
| "isStorageCall e = False"

text \<open>The events that are calls to the index service.\<close>

fun isIndexCall :: "event \<Rightarrow> bool" where
  "isIndexCall (RefreshConfigIndexByApp ns n cs) = True"
| "isIndexCall (RefreshSecretIndexByApp ns n cs) = True"
| "isIndexCall e = False"

section \<open>An in-memory double of the collaborators\<close>

text \<open>
  A small store in memory that stands for the three collaborators when an operation is
  run on concrete data: applications, configs and secrets are kept under
  (namespace, name); the index and the history service only succeed or fail, as
  \<open>fk_failing\<close> tells.
\<close>

record fake =
  fk_apps :: "((string \<times> string) \<times> application) list"
  fk_configs :: "((string \<times> string) \<times> config) list"
  fk_secrets :: "((string \<times> string) \<times> secret) list"
  fk_failing :: "string list"

definition fakeFails :: "string \<Rightarrow> string \<Rightarrow> fake \<Rightarrow> error option \<times> fake" where
  "fakeFails operation text s =
     (if operation \<in> set (fk_failing s) then Some (ExternalError text) else None, s)"

definition fakeDeps :: "fake deps" where
  "fakeDeps =
     \<lparr>storage_GetApplication = (\<lambda>ns n v s.
        if ''GetApplication'' \<in> set (fk_failing s)
        then (Inl (ExternalError ''connection refused''), s)
        else (case map_of (fk_apps s) (ns, n) of
                None \<Rightarrow> (Inl (ExternalError ''applications.cloud.baetyl.io not found''), s)
              | Some a \<Rightarrow> (Inr a, s))),
      storage_CreateApplication = (\<lambda>ns a s.
        if map_of (fk_apps s) (ns, app_Name a) \<noteq> None
        then (Inl (ExternalError ''application already exists''), s)
        else (Inr (a\<lparr>app_Namespace := ns, app_Version := ''1''\<rparr>),
              s\<lparr>fk_apps := ((ns, app_Name a), a\<lparr>app_Namespace := ns, app_Version := ''1''\<rparr>)
                              # fk_apps s\<rparr>)),
      storage_UpdateApplication = (\<lambda>ns a s.
        (case map_of (fk_apps s) (ns, app_Name a) of
           None \<Rightarrow> (Inl (ExternalError ''application not found''), s)
         | Some old \<Rightarrow>
             (Inr (a\<lparr>app_Namespace := ns, app_Version := app_Version old @ ''1''\<rparr>),
              s\<lparr>fk_apps :=
                   ((ns, app_Name a), a\<lparr>app_Namespace := ns, app_Version := app_Version old @ ''1''\<rparr>)
                     # fk_apps s\<rparr>))),
      storage_DeleteApplication = (\<lambda>ns n s.
        if map_of (fk_apps s) (ns, n) = None
        then (Some (ExternalError ''application not found''), s)
        else (None, s\<lparr>fk_apps := filter (\<lambda>kv. fst kv \<noteq> (ns, n)) (fk_apps s)\<rparr>)),
      storage_GetConfig = (\<lambda>ns n v s.
        (case map_of (fk_configs s) (ns, n) of
           None \<Rightarrow> (Inl (ExternalError ''config not found''), s)
         | Some c \<Rightarrow> (Inr c, s))),
      storage_CreateConfig = (\<lambda>ns c s.
        if map_of (fk_configs s) (ns, cfg_Name c) \<noteq> None
        then (Inl (ExternalError ''config already exists''), s)
        else (Inr (c\<lparr>cfg_Version := ''1''\<rparr>),
              s\<lparr>fk_configs := ((ns, cfg_Name c), c\<lparr>cfg_Version := ''1''\<rparr>) # fk_configs s\<rparr>)),
      storage_GetSecret = (\<lambda>ns n v s.
        (case map_of (fk_secrets s) (ns, n) of
           None \<Rightarrow> (Inl (ExternalError ''secret not found''), s)
         | Some c \<Rightarrow> (Inr c, s))),
      dbStorage_CreateApplication = (\<lambda>a. fakeFails ''dbStorage.CreateApplication'' ''database is down''),
      dbStorage_DeleteApplication = (\<lambda>ns n v. fakeFails ''dbStorage.DeleteApplication'' ''database is down''),
      indexService_RefreshConfigIndexByApp =
        (\<lambda>ns n cs. fakeFails ''RefreshConfigIndexByApp'' ''config index is unavailable''),
      indexService_RefreshSecretIndexByApp =
        (\<lambda>ns n cs. fakeFails ''RefreshSecretIndexByApp'' ''secret index is unavailable''),
      common_RandString = (\<lambda>n s. (take n ''k3x9q7m2p5'', s)),
      common_KeyContextNamespace = ''namespace'',
      common_ErrorText = (\<lambda>c fs. ''error'')\<rparr>"

text \<open>The data of the example of the specification, and the worlds it is run in.\<close>

definition exampleApp :: application where
  "exampleApp =
     \<lparr>app_Namespace = ''t1'', app_Name = ''app'', app_Version = '''',
      app_Services = [\<lparr>svc_Name = ''svc'', svc_VolumeMounts = [\<lparr>vm_Name = ''vol''\<rparr>]\<rparr>],
      app_Volumes = [\<lparr>vol_Name = ''vol'',
                      vol_Config = Some \<lparr>ref_Name = ''cfg'', ref_Version = ''''\<rparr>,
                      vol_Secret = None\<rparr>]\<rparr>"

definition emptyWorld :: "fake world" where
  "emptyWorld =
     \<lparr>w_state = \<lparr>fk_apps = [], fk_configs = [], fk_secrets = [], fk_failing = []\<rparr>,
      w_trace = []\<rparr>"

text \<open>
  Two volumes of the same name next to a service whose mount names no volume at all,
  and a service that mounts the second of two volumes.
\<close>

definition duplicateVolumeApp :: application where
  "duplicateVolumeApp =
     \<lparr>app_Namespace = ''t1'', app_Name = ''app'', app_Version = '''',
      app_Services = [\<lparr>svc_Name = ''svc'', svc_VolumeMounts = [\<lparr>vm_Name = ''missing''\<rparr>]\<rparr>],
      app_Volumes = [\<lparr>vol_Name = ''a'', vol_Config = None, vol_Secret = None\<rparr>,
                     \<lparr>vol_Name = ''a'', vol_Config = None, vol_Secret = None\<rparr>]\<rparr>"

definition lateVolumeApp :: application where
  "lateVolumeApp =
     \<lparr>app_Namespace = ''t1'', app_Name = ''app'', app_Version = '''',
      app_Services = [\<lparr>svc_Name = ''svc'', svc_VolumeMounts = [\<lparr>vm_Name = ''b''\<rparr>]\<rparr>],
      app_Volumes = [\<lparr>vol_Name = ''a'', vol_Config = None, vol_Secret = None\<rparr>,
                     \<lparr>vol_Name = ''b'', vol_Config = None, vol_Secret = None\<rparr>]\<rparr>"

text \<open>A world of the double with the given contents and an empty trace.\<close>

definition fakeWorld ::
  "((string \<times> string) \<times> application) list \<Rightarrow> ((string \<times> string) \<times> config) list
     \<Rightarrow> ((string \<times> string) \<times> secret) list \<Rightarrow> string list \<Rightarrow> fake world" where
  "fakeWorld apps configs secrets failing =
     \<lparr>w_state = \<lparr>fk_apps = apps, fk_configs = configs, fk_secrets = secrets,
                  fk_failing = failing\<rparr>,
      w_trace = []\<rparr>"

text \<open>
  The Config \<^verbatim>\<open>cfg\<close> at version \<^verbatim>\<open>v2\<close> in namespace \<^verbatim>\<open>t1\<close>, and an application
  whose volumes refer to that Config and to a Secret \<^verbatim>\<open>sec\<close>.
\<close>

definition cfgV2 :: "(string \<times> string) \<times> config" where
  "cfgV2 = ((''t1'', ''cfg''), \<lparr>cfg_Name = ''cfg'', cfg_Version = ''v2''\<rparr>)"

definition secretApp :: application where
  "secretApp =
     \<lparr>app_Namespace = ''t1'', app_Name = ''app'', app_Version = '''',
      app_Services = [],
      app_Volumes = [\<lparr>vol_Name = ''conf'',
                      vol_Config = Some \<lparr>ref_Name = ''cfg'', ref_Version = ''''\<rparr>,
                      vol_Secret = None\<rparr>,
                     \<lparr>vol_Name = ''cert'',
                      vol_Config = None,
                      vol_Secret = Some \<lparr>ref_Name = ''sec'', ref_Version = ''''\<rparr>\<rparr>]\<rparr>"






text \<open>
  \<open>exampleApp\<close> after its reference has taken the version \<^verbatim>\<open>v2\<close>, and after the
  double's store has updated it.
\<close>

definition resolvedExampleApp :: application where
  "resolvedExampleApp =
     exampleApp\<lparr>app_Volumes :=
       [\<lparr>vol_Name = ''vol'',
         vol_Config = Some \<lparr>ref_Name = ''cfg'', ref_Version = ''v2''\<rparr>,
         vol_Secret = None\<rparr>]\<rparr>"

definition updatedExampleApp :: application where
  "updatedExampleApp = resolvedExampleApp\<lparr>app_Version := ''1''\<rparr>"

text \<open>
  An application whose first service mounts a volume that does not exist and whose
  second service repeats the name of the first; and one whose second service repeats
  the name of the first while its own mount names no volume.
\<close>

definition danglingMountApp :: application where
  "danglingMountApp =
     \<lparr>app_Namespace = ''t1'', app_Name = ''app'', app_Version = '''',
      app_Services = [\<lparr>svc_Name = ''svc'',
                       svc_VolumeMounts = [\<lparr>vm_Name = ''a''\<rparr>, \<lparr>vm_Name = ''gone''\<rparr>]\<rparr>,
                      \<lparr>svc_Name = ''svc'', svc_VolumeMounts = []\<rparr>],
      app_Volumes = [\<lparr>vol_Name = ''a'', vol_Config = None, vol_Secret = None\<rparr>]\<rparr>"

definition duplicateServiceApp :: application where
  "duplicateServiceApp =
     \<lparr>app_Namespace = ''t1'', app_Name = ''app'', app_Version = '''',
      app_Services = [\<lparr>svc_Name = ''svc'', svc_VolumeMounts = [\<lparr>vm_Name = ''a''\<rparr>]\<rparr>,
                      \<lparr>svc_Name = ''svc'', svc_VolumeMounts = [\<lparr>vm_Name = ''gone''\<rparr>]\<rparr>],
      app_Volumes = [\<lparr>vol_Name = ''a'', vol_Config = None, vol_Secret = None\<rparr>]\<rparr>"

section \<open>Properties of validName\<close>

lemma validName_volumes_Inr:
  "validName_volumes vs vf = Inr vf' \<Longrightarrow>
     distinct (map vol_Name vs) \<and> set (map vol_Name vs) \<inter> dom vf = {} \<and>
     dom vf' = dom vf \<union> set (map vol_Name vs)"
proof (induction vs arbitrary: vf)
  case Nil
  then show ?case by auto
next
  case (Cons v vs)
  from Cons.prems have n: "vf (vol_Name v) = None"
    and r: "validName_volumes vs (vf(vol_Name v \<mapsto> True)) = Inr vf'"
    by (auto split: if_splits)
  have k: "vol_Name v \<notin> dom vf" using n by (simp add: domIff)
  have d: "dom (vf(vol_Name v \<mapsto> True)) = insert (vol_Name v) (dom vf)" by simp
  note ih = Cons.IH [OF r, unfolded d]
  from ih k show ?case by auto
qed

lemma validName_volumes_distinct:
  "distinct (map vol_Name vs) \<Longrightarrow> set (map vol_Name vs) \<inter> dom vf = {} \<Longrightarrow>
     \<exists>vf'. validName_volumes vs vf = Inr vf'"
proof (induction vs arbitrary: vf)
  case Nil
  show ?case by simp
next
  case (Cons v vs)
  from Cons.prems have n: "vf (vol_Name v) = None" by (auto simp: domIff)
  have d: "dom (vf(vol_Name v \<mapsto> True)) = insert (vol_Name v) (dom vf)" by simp
  have dd: "distinct (map vol_Name vs)" using Cons.prems by simp
  have "set (map vol_Name vs) \<inter> dom (vf(vol_Name v \<mapsto> True)) = {}"
    unfolding d using Cons.prems by auto
  from Cons.IH [OF dd this]
  obtain vf' where "validName_volumes vs (vf(vol_Name v \<mapsto> True)) = Inr vf'" by blast
  moreover have "validName_volumes (v # vs) vf = validName_volumes vs (vf(vol_Name v \<mapsto> True))"
    using n by simp
  ultimately show ?case by metis
qed

lemma validName_volumes_Inl:
  "validName_volumes vs vf = Inl err \<Longrightarrow>
     \<exists>pre n post. map vol_Name vs = pre @ n # post \<and> distinct pre \<and> set pre \<inter> dom vf = {} \<and>
        (n \<in> set pre \<or> n \<in> dom vf) \<and>
        err = CommonError ErrAppNameConflict
                [common_Field ''where'' ''Volumes[]'', common_Field ''name'' n]"
proof (induction vs arbitrary: vf)
  case Nil
  then show ?case by simp
next
  case (Cons v vs)
  show ?case
  proof (cases "vf (vol_Name v) = None")
    case False
    with Cons.prems
    have "err = CommonError ErrAppNameConflict
                  [common_Field ''where'' ''Volumes[]'', common_Field ''name'' (vol_Name v)]"
      by auto
    with False show ?thesis
      by (intro exI [of _ "[]"] exI [of _ "vol_Name v"] exI [of _ "map vol_Name vs"])
        (auto simp: domIff)
  next
    case True
    have k: "vol_Name v \<notin> dom vf" using True by (simp add: domIff)
    have d: "dom (vf(vol_Name v \<mapsto> True)) = insert (vol_Name v) (dom vf)" by simp
    have "validName_volumes (v # vs) vf = validName_volumes vs (vf(vol_Name v \<mapsto> True))"
      using True by simp
    with Cons.prems have "validName_volumes vs (vf(vol_Name v \<mapsto> True)) = Inl err"
      by metis
    from Cons.IH [OF this, unfolded d] obtain pre n post where
      h: "map vol_Name vs = pre @ n # post" "distinct pre"
         "set pre \<inter> insert (vol_Name v) (dom vf) = {}"
         "n \<in> set pre \<or> n \<in> insert (vol_Name v) (dom vf)"
         "err = CommonError ErrAppNameConflict
                  [common_Field ''where'' ''Volumes[]'', common_Field ''name'' n]"
      by blast
    have "map vol_Name (v # vs) = (vol_Name v # pre) @ n # post" using h(1) by simp
    moreover have "distinct (vol_Name v # pre)" using h(2,3) by auto
    moreover have "set (vol_Name v # pre) \<inter> dom vf = {}" using h(3) k by auto
    moreover have "n \<in> set (vol_Name v # pre) \<or> n \<in> dom vf" using h(4) by auto
    ultimately show ?thesis using h(5) by blast
  qed
qed

lemma validName_mounts_None:
  "validName_mounts vms vf = None \<longleftrightarrow> set (map vm_Name vms) \<subseteq> dom vf"
  by (induction vms) (auto simp: domIff)

lemma validName_mounts_Some:
  "validName_mounts vms vf = Some err \<Longrightarrow>
     \<exists>n. n \<in> set (map vm_Name vms) \<and> n \<notin> dom vf \<and>
         err = CommonError ErrVolumeNotFoundWhenMount [common_Field ''name'' n]"
  by (induction vms) (auto simp: domIff split: if_splits)

lemma validName_services_None:
  "validName_services ss sf vf = None \<longleftrightarrow>
     distinct (map svc_Name ss) \<and> set (map svc_Name ss) \<inter> dom sf = {} \<and>
     set (concat (map (\<lambda>s. map vm_Name (svc_VolumeMounts s)) ss)) \<subseteq> dom vf"
proof (induction ss arbitrary: sf)
  case Nil
  show ?case by simp
next
  case (Cons s ss)
  show ?case
  proof (cases "sf (svc_Name s) = None")
    case False
    then have "svc_Name s \<in> dom sf" by (simp add: domIff)
    then have "set (map svc_Name (s # ss)) \<inter> dom sf \<noteq> {}" by auto
    moreover have "validName_services (s # ss) sf vf \<noteq> None" using False by simp
    ultimately show ?thesis by blast
  next
    case True
    have k: "svc_Name s \<notin> dom sf" using True by (simp add: domIff)
    have d: "dom (sf(svc_Name s \<mapsto> True)) = insert (svc_Name s) (dom sf)" by simp
    note ih = Cons.IH [of "sf(svc_Name s \<mapsto> True)", unfolded d]
    show ?thesis
    proof (cases "validName_mounts (svc_VolumeMounts s) vf")
      case (Some e)
      then have "\<not> set (map vm_Name (svc_VolumeMounts s)) \<subseteq> dom vf"
        using validName_mounts_None [of "svc_VolumeMounts s" vf] by simp
      then have "\<not> set (concat (map (\<lambda>s. map vm_Name (svc_VolumeMounts s)) (s # ss))) \<subseteq> dom vf"
        by auto
      moreover have "validName_services (s # ss) sf vf \<noteq> None" using True Some by simp
      ultimately show ?thesis by blast
    next
      case None
      then have m: "set (map vm_Name (svc_VolumeMounts s)) \<subseteq> dom vf"
        using validName_mounts_None [of "svc_VolumeMounts s" vf] by simp
      have step: "validName_services (s # ss) sf vf =
                  validName_services ss (sf(svc_Name s \<mapsto> True)) vf"
        using True None by simp
      have "(distinct (map svc_Name (s # ss)) \<and> set (map svc_Name (s # ss)) \<inter> dom sf = {} \<and>
             set (concat (map (\<lambda>s. map vm_Name (svc_VolumeMounts s)) (s # ss))) \<subseteq> dom vf) \<longleftrightarrow>
            (distinct (map svc_Name ss) \<and>
             set (map svc_Name ss) \<inter> insert (svc_Name s) (dom sf) = {} \<and>
             set (concat (map (\<lambda>s. map vm_Name (svc_VolumeMounts s)) ss)) \<subseteq> dom vf)"
        using k m by auto
      with ih step show ?thesis by metis
    qed
  qed
qed

lemma validName_services_Some:
  "validName_services ss sf vf = Some err \<Longrightarrow>
     (\<exists>n. err = CommonError ErrAppNameConflict
                  [common_Field ''where'' ''Services[]'', common_Field ''name'' n] \<and>
          (\<not> distinct (map svc_Name ss) \<or> set (map svc_Name ss) \<inter> dom sf \<noteq> {})) \<or>
     (\<exists>n. err = CommonError ErrVolumeNotFoundWhenMount [common_Field ''name'' n] \<and>
          n \<in> set (concat (map (\<lambda>s. map vm_Name (svc_VolumeMounts s)) ss)) \<and> n \<notin> dom vf)"
proof (induction ss arbitrary: sf)
  case Nil
  then show ?case by simp
next
  case (Cons s ss)
  show ?case
  proof (cases "sf (svc_Name s) = None")
    case False
    then have "svc_Name s \<in> set (map svc_Name (s # ss)) \<inter> dom sf" by (simp add: domIff)
    then have "set (map svc_Name (s # ss)) \<inter> dom sf \<noteq> {}" by blast
    moreover from False Cons.prems
    have "err = CommonError ErrAppNameConflict
                  [common_Field ''where'' ''Services[]'', common_Field ''name'' (svc_Name s)]"
      by simp
    ultimately show ?thesis by blast
  next
    case True
    show ?thesis
    proof (cases "validName_mounts (svc_VolumeMounts s) vf")
      case (Some e)
      with True Cons.prems have "e = err" by simp
      with Some validName_mounts_Some [of "svc_VolumeMounts s" vf err]
      show ?thesis by auto
    next
      case None
      with True Cons.prems
      have "validName_services ss (sf(svc_Name s \<mapsto> True)) vf = Some err" by simp
      from Cons.IH [OF this] show ?thesis
      proof (elim disjE exE conjE)
        fix n
        assume e: "err = CommonError ErrAppNameConflict
                      [common_Field ''where'' ''Services[]'', common_Field ''name'' n]"
          and "\<not> distinct (map svc_Name ss)"
        then have "\<not> distinct (map svc_Name (s # ss))" by simp
        with e show ?thesis by blast
      next
        fix n
        assume e: "err = CommonError ErrAppNameConflict
                      [common_Field ''where'' ''Services[]'', common_Field ''name'' n]"
          and "set (map svc_Name ss) \<inter> dom (sf(svc_Name s \<mapsto> True)) \<noteq> {}"
        then have "\<not> distinct (map svc_Name (s # ss)) \<or>
                   set (map svc_Name (s # ss)) \<inter> dom sf \<noteq> {}"
          by auto
        with e show ?thesis by blast
      next
        fix n
        assume "err = CommonError ErrVolumeNotFoundWhenMount [common_Field ''name'' n]"
          and "n \<in> set (concat (map (\<lambda>s. map vm_Name (svc_VolumeMounts s)) ss))"
          and "n \<notin> dom vf"
        then have "\<exists>n. err = CommonError ErrVolumeNotFoundWhenMount [common_Field ''name'' n] \<and>
          n \<in> set (concat (map (\<lambda>s. map vm_Name (svc_VolumeMounts s)) (s # ss))) \<and> n \<notin> dom vf"
          by (intro exI [of _ n]) simp
        then show ?thesis by blast
      qed
    qed
  qed
qed

lemma validName_None:
  "validName app = None \<longleftrightarrow>
     distinct (volumeNames app) \<and> distinct (serviceNames app) \<and>
     set (mountNames app) \<subseteq> set (volumeNames app)"
proof (cases "validName_volumes (app_Volumes app) Map.empty")
  case (Inl e)
  then have "\<not> distinct (map vol_Name (app_Volumes app))"
    using validName_volumes_distinct [of "app_Volumes app" Map.empty] by auto
  with Inl show ?thesis by (simp add: validName_def volumeNames_def)
next
  case (Inr vf)
  then have d: "distinct (map vol_Name (app_Volumes app))"
    and vf: "dom vf = set (map vol_Name (app_Volumes app))"
    using validName_volumes_Inr [of "app_Volumes app" Map.empty vf] by auto
  show ?thesis
    using Inr d vf validName_services_None [of "app_Services app" Map.empty vf]
    by (simp add: validName_def volumeNames_def serviceNames_def mountNames_def)
qed

lemma validName_Some:
  assumes "validName app = Some err"
  shows "(\<exists>n. err = CommonError ErrAppNameConflict
                      [common_Field ''where'' ''Volumes[]'', common_Field ''name'' n] \<and>
              \<not> distinct (volumeNames app)) \<or>
         (\<exists>n. err = CommonError ErrAppNameConflict
                      [common_Field ''where'' ''Services[]'', common_Field ''name'' n] \<and>
              distinct (volumeNames app) \<and> \<not> distinct (serviceNames app)) \<or>
         (\<exists>n. err = CommonError ErrVolumeNotFoundWhenMount [common_Field ''name'' n] \<and>
              distinct (volumeNames app) \<and> n \<in> set (mountNames app) \<and>
              n \<notin> set (volumeNames app))"
proof (cases "validName_volumes (app_Volumes app) Map.empty")
  case (Inl e)
  then have nd: "\<not> distinct (map vol_Name (app_Volumes app))"
    using validName_volumes_distinct [of "app_Volumes app" Map.empty] by auto
  from Inl assms have "e = err" by (simp add: validName_def)
  with validName_volumes_Inl [OF Inl] nd show ?thesis
    by (auto simp: volumeNames_def)
next
  case (Inr vf)
  then have d: "distinct (map vol_Name (app_Volumes app))"
    and vf: "dom vf = set (map vol_Name (app_Volumes app))"
    using validName_volumes_Inr [of "app_Volumes app" Map.empty vf] by auto
  from Inr assms have "validName_services (app_Services app) Map.empty vf = Some err"
    by (simp add: validName_def)
  from validName_services_Some [OF this] d vf show ?thesis
    by (auto simp: volumeNames_def serviceNames_def mountNames_def)
qed

lemma validName_mounts_first:
  "set (map vm_Name ms) \<subseteq> dom vf \<Longrightarrow> vm_Name m \<notin> dom vf \<Longrightarrow>
     validName_mounts (ms @ m # ms') vf =
       Some (CommonError ErrVolumeNotFoundWhenMount [common_Field ''name'' (vm_Name m)])"
  by (induction ms) (auto simp: domIff)

lemma validName_services_prefix:
  "distinct (map svc_Name pre) \<Longrightarrow> set (map svc_Name pre) \<inter> dom sf = {} \<Longrightarrow>
   set (concat (map (\<lambda>s. map vm_Name (svc_VolumeMounts s)) pre)) \<subseteq> dom vf \<Longrightarrow>
     \<exists>sf'. dom sf' = dom sf \<union> set (map svc_Name pre) \<and>
       validName_services (pre @ rest) sf vf = validName_services rest sf' vf"
proof (induction pre arbitrary: sf)
  case Nil
  have "dom sf = dom sf \<union> set (map svc_Name [])" by simp
  moreover have "validName_services ([] @ rest) sf vf = validName_services rest sf vf" by simp
  ultimately show ?case by blast
next
  case (Cons p pre)
  from Cons.prems have n: "sf (svc_Name p) = None" by (auto simp: domIff)
  have d: "dom (sf(svc_Name p \<mapsto> True)) = insert (svc_Name p) (dom sf)" by simp
  from Cons.prems have "set (map vm_Name (svc_VolumeMounts p)) \<subseteq> dom vf" by simp
  then have m: "validName_mounts (svc_VolumeMounts p) vf = None"
    by (simp add: validName_mounts_None)
  have step: "validName_services ((p # pre) @ rest) sf vf =
              validName_services (pre @ rest) (sf(svc_Name p \<mapsto> True)) vf"
    using n m by simp
  have dd: "distinct (map svc_Name pre)" using Cons.prems by simp
  have dj: "set (map svc_Name pre) \<inter> dom (sf(svc_Name p \<mapsto> True)) = {}"
    unfolding d using Cons.prems by auto
  have mm: "set (concat (map (\<lambda>s. map vm_Name (svc_VolumeMounts s)) pre)) \<subseteq> dom vf"
    using Cons.prems by simp
  from Cons.IH [OF dd dj mm, unfolded d] obtain sf' where
    s: "dom sf' = insert (svc_Name p) (dom sf) \<union> set (map svc_Name pre)"
       "validName_services (pre @ rest) (sf(svc_Name p \<mapsto> True)) vf =
        validName_services rest sf' vf"
    by blast
  from s(1) have "dom sf' = dom sf \<union> set (map svc_Name (p # pre))" by auto
  moreover from step s(2)
  have "validName_services ((p # pre) @ rest) sf vf = validName_services rest sf' vf"
    by metis
  ultimately show ?case by blast
qed

lemma validName_first_service_violation:
  assumes "distinct (volumeNames app)"
    and "app_Services app = pre @ s # post"
    and "distinct (map svc_Name pre)"
    and "set (concat (map (\<lambda>s. map vm_Name (svc_VolumeMounts s)) pre)) \<subseteq> set (volumeNames app)"
  shows "svc_Name s \<in> set (map svc_Name pre) \<Longrightarrow>
           validName app =
             Some (CommonError ErrAppNameConflict
                     [common_Field ''where'' ''Services[]'', common_Field ''name'' (svc_Name s)])"
    and "svc_Name s \<notin> set (map svc_Name pre) \<Longrightarrow> svc_VolumeMounts s = ms @ m # ms' \<Longrightarrow>
         set (map vm_Name ms) \<subseteq> set (volumeNames app) \<Longrightarrow>
         vm_Name m \<notin> set (volumeNames app) \<Longrightarrow>
           validName app =
             Some (CommonError ErrVolumeNotFoundWhenMount [common_Field ''name'' (vm_Name m)])"
proof -
  from assms(1) obtain vf where vf: "validName_volumes (app_Volumes app) Map.empty = Inr vf"
    using validName_volumes_distinct [of "app_Volumes app" Map.empty]
    by (auto simp: volumeNames_def)
  from validName_volumes_Inr [OF vf] have dv: "dom vf = set (volumeNames app)"
    by (simp add: volumeNames_def)
  have e: "set (map svc_Name pre) \<inter> dom (Map.empty :: string \<rightharpoonup> bool) = {}" by simp
  from validName_services_prefix [OF assms(3) e assms(4) [folded dv], of "s # post"]
  obtain sf' where
    sf: "dom sf' = set (map svc_Name pre)"
    and r: "validName_services (pre @ s # post) Map.empty vf = validName_services (s # post) sf' vf"
    by auto
  have v: "validName app = validName_services (s # post) sf' vf"
    using vf r assms(2) by (simp add: validName_def)
  {
    assume "svc_Name s \<in> set (map svc_Name pre)"
    with sf have "sf' (svc_Name s) \<noteq> None" by (metis domIff)
    with v show "validName app =
             Some (CommonError ErrAppNameConflict
                     [common_Field ''where'' ''Services[]'', common_Field ''name'' (svc_Name s)])"
      by simp
  next
    assume "svc_Name s \<notin> set (map svc_Name pre)"
      and ms: "svc_VolumeMounts s = ms @ m # ms'"
      and ok: "set (map vm_Name ms) \<subseteq> set (volumeNames app)"
      and bad: "vm_Name m \<notin> set (volumeNames app)"
    with sf have n: "sf' (svc_Name s) = None" by (metis domIff)
    from validName_mounts_first [OF ok [folded dv] bad [folded dv], of ms'] ms
    have "validName_mounts (svc_VolumeMounts s) vf =
            Some (CommonError ErrVolumeNotFoundWhenMount [common_Field ''name'' (vm_Name m)])"
      by simp
    with v n show "validName app =
             Some (CommonError ErrVolumeNotFoundWhenMount [common_Field ''name'' (vm_Name m)])"
      by simp
  }
qed

text \<open>
  Claim C6.  \<^verbatim>\<open>validName\<close> goes through all volumes before it looks at any service.
  When two volumes share a name, the result is the \<^verbatim>\<open>ErrAppNameConflict\<close> on
  \<^verbatim>\<open>Volumes[]\<close> for the first name that repeats an earlier one, whatever the
  services are, so no service name and no mount has been looked at.  The mounts are
  checked against the names of all volumes, at any position: the application is
  accepted exactly when the volume names are distinct, the service names are distinct
  and every mount names some volume of the application.  When the volume names are
  distinct, the first service in the order of declaration that breaks a rule decides
  the error: if its name repeats the name of an earlier service, the result is the
  \<^verbatim>\<open>ErrAppNameConflict\<close> on \<^verbatim>\<open>Services[]\<close> for that name; otherwise the result is
  \<^verbatim>\<open>ErrVolumeNotFoundWhenMount\<close> for the first of its mounts that names no volume.
\<close>

theorem validName_volumes_before_services:
  "(\<not> distinct (volumeNames app) \<longrightarrow>
      (\<exists>pre n post. volumeNames app = pre @ n # post \<and> distinct pre \<and> n \<in> set pre \<and>
         (\<forall>services. validName (app\<lparr>app_Services := services\<rparr>) =
            Some (CommonError ErrAppNameConflict
                    [common_Field ''where'' ''Volumes[]'', common_Field ''name'' n])))) \<and>
   (validName app = None \<longleftrightarrow>
      distinct (volumeNames app) \<and> distinct (serviceNames app) \<and>
      set (mountNames app) \<subseteq> set (volumeNames app)) \<and>
   (distinct (volumeNames app) \<longrightarrow>
      (\<forall>pre s post.
         app_Services app = pre @ s # post \<and> distinct (map svc_Name pre) \<and>
         set (concat (map (\<lambda>s. map vm_Name (svc_VolumeMounts s)) pre)) \<subseteq> set (volumeNames app)
         \<longrightarrow>
           (svc_Name s \<in> set (map svc_Name pre) \<longrightarrow>
              validName app =
                Some (CommonError ErrAppNameConflict
                        [common_Field ''where'' ''Services[]'',
                         common_Field ''name'' (svc_Name s)])) \<and>
           (svc_Name s \<notin> set (map svc_Name pre) \<longrightarrow>
              (\<forall>ms m ms'.
                 svc_VolumeMounts s = ms @ m # ms' \<and>
                 set (map vm_Name ms) \<subseteq> set (volumeNames app) \<and>
                 vm_Name m \<notin> set (volumeNames app) \<longrightarrow>
                   validName app =
                     Some (CommonError ErrVolumeNotFoundWhenMount
                             [common_Field ''name'' (vm_Name m)])))))"
proof (intro conjI)
  show "\<not> distinct (volumeNames app) \<longrightarrow>
      (\<exists>pre n post. volumeNames app = pre @ n # post \<and> distinct pre \<and> n \<in> set pre \<and>
         (\<forall>services. validName (app\<lparr>app_Services := services\<rparr>) =
            Some (CommonError ErrAppNameConflict
                    [common_Field ''where'' ''Volumes[]'', common_Field ''name'' n])))"
  proof
    assume nd: "\<not> distinct (volumeNames app)"
    obtain err where e: "validName_volumes (app_Volumes app) Map.empty = Inl err"
      using nd validName_volumes_Inr [of "app_Volumes app" Map.empty]
      by (cases "validName_volumes (app_Volumes app) Map.empty") (auto simp: volumeNames_def)
    from validName_volumes_Inl [OF e] obtain pre n post where
      h: "map vol_Name (app_Volumes app) = pre @ n # post" "distinct pre" "n \<in> set pre"
         "err = CommonError ErrAppNameConflict
                  [common_Field ''where'' ''Volumes[]'', common_Field ''name'' n]"
      by auto
    have "\<forall>services. validName (app\<lparr>app_Services := services\<rparr>) = Some err"
      using e by (simp add: validName_def)
    with h show "\<exists>pre n post. volumeNames app = pre @ n # post \<and> distinct pre \<and> n \<in> set pre \<and>
           (\<forall>services. validName (app\<lparr>app_Services := services\<rparr>) =
              Some (CommonError ErrAppNameConflict
                      [common_Field ''where'' ''Volumes[]'', common_Field ''name'' n]))"
      unfolding volumeNames_def by blast
  qed
next
  show "validName app = None \<longleftrightarrow>
      distinct (volumeNames app) \<and> distinct (serviceNames app) \<and>
      set (mountNames app) \<subseteq> set (volumeNames app)"
    by (rule validName_None)
next
  show "distinct (volumeNames app) \<longrightarrow>
      (\<forall>pre s post.
         app_Services app = pre @ s # post \<and> distinct (map svc_Name pre) \<and>
         set (concat (map (\<lambda>s. map vm_Name (svc_VolumeMounts s)) pre)) \<subseteq> set (volumeNames app)
         \<longrightarrow>
           (svc_Name s \<in> set (map svc_Name pre) \<longrightarrow>
              validName app =
                Some (CommonError ErrAppNameConflict
                        [common_Field ''where'' ''Services[]'',
                         common_Field ''name'' (svc_Name s)])) \<and>
           (svc_Name s \<notin> set (map svc_Name pre) \<longrightarrow>
              (\<forall>ms m ms'.
                 svc_VolumeMounts s = ms @ m # ms' \<and>
                 set (map vm_Name ms) \<subseteq> set (volumeNames app) \<and>
                 vm_Name m \<notin> set (volumeNames app) \<longrightarrow>
                   validName app =
                     Some (CommonError ErrVolumeNotFoundWhenMount
                             [common_Field ''name'' (vm_Name m)]))))"
    using validName_first_service_violation [of app] by blast
qed

theorem validName_volumes_before_services_witness:
  "\<not> distinct (volumeNames duplicateVolumeApp) \<and>
   validName duplicateVolumeApp =
     Some (CommonError ErrAppNameConflict
             [common_Field ''where'' ''Volumes[]'', common_Field ''name'' ''a'']) \<and>
   distinct (volumeNames lateVolumeApp) \<and> distinct (serviceNames lateVolumeApp) \<and>
   set (mountNames lateVolumeApp) \<subseteq> set (volumeNames lateVolumeApp) \<and>
   validName lateVolumeApp = None \<and>
   distinct (volumeNames danglingMountApp) \<and>
   validName danglingMountApp =
     Some (CommonError ErrVolumeNotFoundWhenMount [common_Field ''name'' ''gone'']) \<and>
   distinct (volumeNames duplicateServiceApp) \<and>
   validName duplicateServiceApp =
     Some (CommonError ErrAppNameConflict
             [common_Field ''where'' ''Services[]'', common_Field ''name'' ''svc''])"
proof -
  have names: "volumeNames duplicateVolumeApp = [''a'', ''a'']"
    by (simp add: duplicateVolumeApp_def volumeNames_def)
  then have dup: "\<not> distinct (volumeNames duplicateVolumeApp)" by simp
  from validName_volumes_before_services [THEN conjunct1, THEN mp, OF dup]
  obtain pre n post where
    n: "volumeNames duplicateVolumeApp = pre @ n # post" "n \<in> set pre"
    and v: "\<forall>services. validName (duplicateVolumeApp\<lparr>app_Services := services\<rparr>) =
              Some (CommonError ErrAppNameConflict
                      [common_Field ''where'' ''Volumes[]'', common_Field ''name'' n])"
    by blast
  from n have "n \<in> set (volumeNames duplicateVolumeApp)" by simp
  with names have "n = ''a''" by simp
  moreover from v
  have "validName (duplicateVolumeApp\<lparr>app_Services := app_Services duplicateVolumeApp\<rparr>) =
          Some (CommonError ErrAppNameConflict
                  [common_Field ''where'' ''Volumes[]'', common_Field ''name'' n])"
    by blast
  ultimately have rejected: "validName duplicateVolumeApp =
          Some (CommonError ErrAppNameConflict
                  [common_Field ''where'' ''Volumes[]'', common_Field ''name'' ''a''])"
    by simp
  have late: "distinct (volumeNames lateVolumeApp) \<and> distinct (serviceNames lateVolumeApp) \<and>
              set (mountNames lateVolumeApp) \<subseteq> set (volumeNames lateVolumeApp)"
    by (simp add: lateVolumeApp_def volumeNames_def serviceNames_def mountNames_def)
  from validName_volumes_before_services [THEN conjunct2, THEN conjunct1, THEN iffD2, OF late]
  have accepted: "validName lateVolumeApp = None" .
  have dv: "distinct (volumeNames danglingMountApp)"
    by (simp add: danglingMountApp_def volumeNames_def)
  have ds: "app_Services danglingMountApp =
              [] @ \<lparr>svc_Name = ''svc'',
                     svc_VolumeMounts = [\<lparr>vm_Name = ''a''\<rparr>, \<lparr>vm_Name = ''gone''\<rparr>]\<rparr>
                # [\<lparr>svc_Name = ''svc'', svc_VolumeMounts = []\<rparr>] \<and>
            distinct (map svc_Name []) \<and>
            set (concat (map (\<lambda>s. map vm_Name (svc_VolumeMounts s)) []))
              \<subseteq> set (volumeNames danglingMountApp)"
    by (simp add: danglingMountApp_def)
  have dn: "svc_Name \<lparr>svc_Name = ''svc'',
                       svc_VolumeMounts = [\<lparr>vm_Name = ''a''\<rparr>, \<lparr>vm_Name = ''gone''\<rparr>]\<rparr>
              \<notin> set (map svc_Name [])"
    by simp
  have dm: "svc_VolumeMounts \<lparr>svc_Name = ''svc'',
                svc_VolumeMounts = [\<lparr>vm_Name = ''a''\<rparr>, \<lparr>vm_Name = ''gone''\<rparr>]\<rparr> =
              [\<lparr>vm_Name = ''a''\<rparr>] @ \<lparr>vm_Name = ''gone''\<rparr> # [] \<and>
            set (map vm_Name [\<lparr>vm_Name = ''a''\<rparr>]) \<subseteq> set (volumeNames danglingMountApp) \<and>
            vm_Name \<lparr>vm_Name = ''gone''\<rparr> \<notin> set (volumeNames danglingMountApp)"
    by (simp add: danglingMountApp_def volumeNames_def)
  from validName_volumes_before_services
         [THEN conjunct2, THEN conjunct2, THEN mp, OF dv, THEN spec, THEN spec, THEN spec,
          THEN mp, OF ds, THEN conjunct2, THEN mp, OF dn, THEN spec, THEN spec, THEN spec,
          THEN mp, OF dm]
  have dangling: "validName danglingMountApp =
     Some (CommonError ErrVolumeNotFoundWhenMount [common_Field ''name'' ''gone''])"
    by simp
  have sv: "distinct (volumeNames duplicateServiceApp)"
    by (simp add: duplicateServiceApp_def volumeNames_def)
  have ss: "app_Services duplicateServiceApp =
              [\<lparr>svc_Name = ''svc'', svc_VolumeMounts = [\<lparr>vm_Name = ''a''\<rparr>]\<rparr>]
                @ \<lparr>svc_Name = ''svc'', svc_VolumeMounts = [\<lparr>vm_Name = ''gone''\<rparr>]\<rparr> # [] \<and>
            distinct (map svc_Name [\<lparr>svc_Name = ''svc'', svc_VolumeMounts = [\<lparr>vm_Name = ''a''\<rparr>]\<rparr>]) \<and>
            set (concat (map (\<lambda>s. map vm_Name (svc_VolumeMounts s))
                   [\<lparr>svc_Name = ''svc'', svc_VolumeMounts = [\<lparr>vm_Name = ''a''\<rparr>]\<rparr>]))
              \<subseteq> set (volumeNames duplicateServiceApp)"
    by (simp add: duplicateServiceApp_def volumeNames_def)
  have sn: "svc_Name \<lparr>svc_Name = ''svc'', svc_VolumeMounts = [\<lparr>vm_Name = ''gone''\<rparr>]\<rparr>
              \<in> set (map svc_Name [\<lparr>svc_Name = ''svc'', svc_VolumeMounts = [\<lparr>vm_Name = ''a''\<rparr>]\<rparr>])"
    by simp
  from validName_volumes_before_services
         [THEN conjunct2, THEN conjunct2, THEN mp, OF sv, THEN spec, THEN spec, THEN spec,
          THEN mp, OF ss, THEN conjunct1, THEN mp, OF sn]
  have repeated: "validName duplicateServiceApp =
     Some (CommonError ErrAppNameConflict
             [common_Field ''where'' ''Services[]'', common_Field ''name'' ''svc''])"
    by simp
  from dup rejected late accepted dv dangling sv repeated show ?thesis by blast
qed

text \<open>
  Claim C8.  When the application breaks a name rule (two volumes of one name, two
  services of one name, or a mount that names no volume), \<^verbatim>\<open>Update\<close> returns the
  error of \<^verbatim>\<open>validName\<close> that belongs to the broken rule, the caller's application
  is untouched and the world is the one it started in: no collaborator has been called
  and nothing has been logged.
\<close>

theorem Update_rejects_invalid_names:
  assumes "\<not> distinct (volumeNames app) \<or> \<not> distinct (serviceNames app) \<or>
           \<not> set (mountNames app) \<subseteq> set (volumeNames app)"
  shows "\<exists>err. Update d namespace app w = (Inl err, app, w) \<and>
          ((\<exists>n. err = CommonError ErrAppNameConflict
                        [common_Field ''where'' ''Volumes[]'', common_Field ''name'' n] \<and>
                \<not> distinct (volumeNames app)) \<or>
           (\<exists>n. err = CommonError ErrAppNameConflict
                        [common_Field ''where'' ''Services[]'', common_Field ''name'' n] \<and>
                distinct (volumeNames app) \<and> \<not> distinct (serviceNames app)) \<or>
           (\<exists>n. err = CommonError ErrVolumeNotFoundWhenMount [common_Field ''name'' n] \<and>
                distinct (volumeNames app) \<and> n \<in> set (mountNames app) \<and>
                n \<notin> set (volumeNames app)))"
proof -
  from assms have "validName app \<noteq> None" by (auto simp: validName_None)
  then obtain err where e: "validName app = Some err" by blast
  then have "Update d namespace app w = (Inl err, app, w)" by (simp add: Update_def)
  with validName_Some [OF e] show ?thesis by blast
qed

theorem Update_rejects_invalid_names_witness:
  "\<not> distinct (volumeNames duplicateVolumeApp) \<and>
   Update fakeDeps ''t1'' duplicateVolumeApp emptyWorld =
     (Inl (CommonError ErrAppNameConflict
             [common_Field ''where'' ''Volumes[]'', common_Field ''name'' ''a'']),
      duplicateVolumeApp, emptyWorld)"
proof -
  have dup: "\<not> distinct (volumeNames duplicateVolumeApp)"
    by (simp add: duplicateVolumeApp_def volumeNames_def)
  then have "\<not> distinct (volumeNames duplicateVolumeApp) \<or>
             \<not> distinct (serviceNames duplicateVolumeApp) \<or>
             \<not> set (mountNames duplicateVolumeApp) \<subseteq> set (volumeNames duplicateVolumeApp)"
    by blast
  from Update_rejects_invalid_names [OF this, of fakeDeps "''t1''" emptyWorld]
  obtain err where
    u: "Update fakeDeps ''t1'' duplicateVolumeApp emptyWorld = (Inl err, duplicateVolumeApp, emptyWorld)"
    by blast
  have "fst (Update fakeDeps ''t1'' duplicateVolumeApp emptyWorld) =
          Inl (CommonError ErrAppNameConflict
                 [common_Field ''where'' ''Volumes[]'', common_Field ''name'' ''a''])"
    by (simp add: Update_def validName_def duplicateVolumeApp_def)
  with u dup show ?thesis by simp
qed

section \<open>Properties of Get\<close>

lemma HasPrefix_iff: "HasPrefix s p \<longleftrightarrow> (\<exists>t. s = p @ t)"
  by (induction s p rule: HasPrefix.induct) auto

lemma Contains_iff: "Contains s substr \<longleftrightarrow> (\<exists>pre post. s = pre @ substr @ post)"
proof (induction s)
  case Nil
  show ?case by (cases substr) auto
next
  case (Cons c s)
  show ?case
  proof
    assume "Contains (c # s) substr"
    then consider "HasPrefix (c # s) substr" | "Contains s substr" by auto
    then show "\<exists>pre post. c # s = pre @ substr @ post"
    proof cases
      case 1
      then obtain t where "c # s = substr @ t" by (auto simp: HasPrefix_iff)
      then have "c # s = [] @ substr @ t" by simp
      then show ?thesis by blast
    next
      case 2
      then obtain pre post where "s = pre @ substr @ post" using Cons.IH by blast
      then have "c # s = (c # pre) @ substr @ post" by simp
      then show ?thesis by blast
    qed
  next
    assume "\<exists>pre post. c # s = pre @ substr @ post"
    then obtain pre post where e: "c # s = pre @ substr @ post" by blast
    show "Contains (c # s) substr"
    proof (cases pre)
      case Nil
      with e have "HasPrefix (c # s) substr" by (auto simp: HasPrefix_iff)
      then show ?thesis by simp
    next
      case (Cons a pre')
      with e have "s = pre' @ substr @ post" by simp
      then have "Contains s substr" using Cons.IH by blast
      then show ?thesis by simp
    qed
  qed
qed

text \<open>
  Claim C4.  When the lookup in the resource store fails, \<^verbatim>\<open>Get\<close> looks at the text
  of the error: if it contains \<^verbatim>\<open>not found\<close> (see \<open>Contains_iff\<close>), the result is the
  coded error \<^verbatim>\<open>ErrResourceNotFound\<close> with the fields type = app and name = the name
  asked for; any other error of the store is the result as it is.
\<close>

theorem Get_normalises_not_found:
  assumes "storage_GetApplication d namespace name version (w_state w) = (Inl err, s')"
  shows "fst (Get d namespace name version w) =
           (if Contains (Error d err) ''not found''
            then Inl (CommonError ErrResourceNotFound
                        [common_Field ''type'' ''app'', common_Field ''name'' name])
            else Inl err)"
  using assms by (simp add: Get_def call_def)

theorem Get_normalises_not_found_witness:
  "fst (Get fakeDeps ''t1'' ''app'' ''v1'' (fakeWorld [] [] [] [])) =
     Inl (CommonError ErrResourceNotFound
            [common_Field ''type'' ''app'', common_Field ''name'' ''app'']) \<and>
   fst (Get fakeDeps ''t1'' ''app'' ''v1'' (fakeWorld [] [] [] [''GetApplication''])) =
     Inl (ExternalError ''connection refused'')"
proof -
  have absent:
    "storage_GetApplication fakeDeps ''t1'' ''app'' ''v1'' (w_state (fakeWorld [] [] [] [])) =
       (Inl (ExternalError ''applications.cloud.baetyl.io not found''),
        w_state (fakeWorld [] [] [] []))"
    by (simp add: fakeDeps_def fakeWorld_def)
  have refused:
    "storage_GetApplication fakeDeps ''t1'' ''app'' ''v1''
       (w_state (fakeWorld [] [] [] [''GetApplication''])) =
       (Inl (ExternalError ''connection refused''),
        w_state (fakeWorld [] [] [] [''GetApplication'']))"
    by (simp add: fakeDeps_def fakeWorld_def)
  from Get_normalises_not_found [OF absent] Get_normalises_not_found [OF refused]
  show ?thesis by (simp add: Error_def)
qed

section \<open>Properties of Delete\<close>

text \<open>
  Claim C5.  When the delete in the resource store fails, \<^verbatim>\<open>Delete\<close> returns that
  error and has done nothing else.  When it succeeds, \<^verbatim>\<open>Delete\<close> returns no error,
  whatever the two index refreshes and the history store answer: the collaborators
  \<open>d\<close> are arbitrary.
\<close>

theorem Delete_result_is_primary_delete:
  "(storage_DeleteApplication d namespace name (w_state w) = (Some err, s') \<longrightarrow>
      Delete d namespace name version w =
        (Some err, \<lparr>w_state = s', w_trace = w_trace w @ [StorageDeleteApplication namespace name]\<rparr>)) \<and>
   (storage_DeleteApplication d namespace name (w_state w) = (None, s') \<longrightarrow>
      fst (Delete d namespace name version w) = None)"
  by (simp add: Delete_def call_def split: prod.splits option.splits)

theorem Delete_result_is_primary_delete_witness:
  "Delete fakeDeps ''t1'' ''app'' ''v1'' (fakeWorld [] [] [] []) =
     (Some (ExternalError ''application not found''),
      \<lparr>w_state = w_state (fakeWorld [] [] [] []),
       w_trace = [StorageDeleteApplication ''t1'' ''app'']\<rparr>) \<and>
   fst (Delete fakeDeps ''t1'' ''app'' ''v1''
          (fakeWorld [((''t1'', ''app''), exampleApp)] [] []
             [''RefreshConfigIndexByApp'', ''RefreshSecretIndexByApp'',
              ''dbStorage.DeleteApplication''])) = None"
proof -
  have absent:
    "storage_DeleteApplication fakeDeps ''t1'' ''app'' (w_state (fakeWorld [] [] [] [])) =
       (Some (ExternalError ''application not found''), w_state (fakeWorld [] [] [] []))"
    by (simp add: fakeDeps_def fakeWorld_def)
  have present:
    "storage_DeleteApplication fakeDeps ''t1'' ''app''
       (w_state (fakeWorld [((''t1'', ''app''), exampleApp)] [] []
          [''RefreshConfigIndexByApp'', ''RefreshSecretIndexByApp'',
           ''dbStorage.DeleteApplication''])) =
       (None,
        w_state (fakeWorld [] [] []
          [''RefreshConfigIndexByApp'', ''RefreshSecretIndexByApp'',
           ''dbStorage.DeleteApplication'']))"
    by (simp add: fakeDeps_def fakeWorld_def)
  from Delete_result_is_primary_delete [THEN conjunct1, THEN mp, OF absent]
    Delete_result_is_primary_delete [THEN conjunct2, THEN mp, OF present]
  show ?thesis by (simp add: fakeWorld_def)
qed

text \<open>
  Claim C9.  The world \<open>w3\<close> in which \<^verbatim>\<open>Delete\<close> reaches the history store does not
  depend on the version: the one call to the resource store in it is the delete of
  (namespace, name), with no version among its arguments.  The version appears only
  in the call that records the deletion in the history store, whose outcome changes
  neither the result nor what was deleted.
\<close>

theorem Delete_version_only_in_history:
  "\<exists>w3. filter isStorageCall (drop (length (w_trace w)) (w_trace w3)) =
            [StorageDeleteApplication namespace name] \<and>
     (\<forall>version.
        Delete d namespace name version w =
          (case fst (storage_DeleteApplication d namespace name (w_state w)) of
             Some err \<Rightarrow> (Some err, w3)
           | None \<Rightarrow>
               (case call (DBDeleteApplication namespace name version)
                       (dbStorage_DeleteApplication d namespace name version) w3 of
                  (Some err, w4) \<Rightarrow> (None, logError ''delete application history error'' w4)
                | (None, w4) \<Rightarrow> (None, w4))))"
proof (cases "storage_DeleteApplication d namespace name (w_state w)")
  case (Pair r s1)
  define w1 :: "'a world" where
    "w1 = \<lparr>w_state = s1, w_trace = w_trace w @ [StorageDeleteApplication namespace name]\<rparr>"
  show ?thesis
  proof (cases r)
    case (Some err)
    with Pair have "\<forall>version. Delete d namespace name version w = (Some err, w1)"
      by (simp add: Delete_def call_def w1_def)
    moreover have "filter isStorageCall (drop (length (w_trace w)) (w_trace w1)) =
            [StorageDeleteApplication namespace name]"
      by (simp add: w1_def)
    ultimately show ?thesis using Pair Some by (intro exI [of _ w1]) simp
  next
    case None
    obtain r2 s2 where c: "indexService_RefreshConfigIndexByApp d namespace name [] s1 = (r2, s2)"
      by (cases "indexService_RefreshConfigIndexByApp d namespace name [] s1")
    define w2 :: "'a world" where
      "w2 = (case r2 of
               Some err \<Rightarrow> logError ''Application clean config index error''
                   \<lparr>w_state = s2, w_trace = w_trace w1 @ [RefreshConfigIndexByApp namespace name []]\<rparr>
             | None \<Rightarrow> \<lparr>w_state = s2, w_trace = w_trace w1 @ [RefreshConfigIndexByApp namespace name []]\<rparr>)"
    obtain r3 s3 where s: "indexService_RefreshSecretIndexByApp d namespace name [] (w_state w2) = (r3, s3)"
      by (cases "indexService_RefreshSecretIndexByApp d namespace name [] (w_state w2)")
    define w3 :: "'a world" where
      "w3 = (case r3 of
               Some err \<Rightarrow> logError ''Application clean secret index error''
                   \<lparr>w_state = s3, w_trace = w_trace w2 @ [RefreshSecretIndexByApp namespace name []]\<rparr>
             | None \<Rightarrow> \<lparr>w_state = s3, w_trace = w_trace w2 @ [RefreshSecretIndexByApp namespace name []]\<rparr>)"
    have t2: "w_trace w2 = w_trace w1 @ [RefreshConfigIndexByApp namespace name []] @
                (case r2 of Some err \<Rightarrow> [LogError ''Application clean config index error''] | None \<Rightarrow> [])"
      by (simp add: w2_def logError_def split: option.splits)
    have t3: "w_trace w3 = w_trace w2 @ [RefreshSecretIndexByApp namespace name []] @
                (case r3 of Some err \<Rightarrow> [LogError ''Application clean secret index error''] | None \<Rightarrow> [])"
      by (simp add: w3_def logError_def split: option.splits)
    have f: "filter isStorageCall (drop (length (w_trace w)) (w_trace w3)) =
            [StorageDeleteApplication namespace name]"
      by (simp add: t3 t2 w1_def split: option.splits)
    have "\<forall>version. Delete d namespace name version w =
               (case call (DBDeleteApplication namespace name version)
                       (dbStorage_DeleteApplication d namespace name version) w3 of
                  (Some err, w4) \<Rightarrow> (None, logError ''delete application history error'' w4)
                | (None, w4) \<Rightarrow> (None, w4))"
      using Pair None c s
      by (simp add: Delete_def call_def w1_def w2_def w3_def logError_def
          split: option.splits prod.splits)
    with f Pair None show ?thesis by (intro exI [of _ w3]) simp
  qed
qed

section \<open>Properties of Create and Update\<close>

lemma configNames_Cons:
  "configNames (v # vs) =
     (case vol_Config v of None \<Rightarrow> [] | Some ref \<Rightarrow> [ref_Name ref]) @ configNames vs"
  by (simp add: configNames_def map_filter_simps split: option.splits)

lemma secretNames_Cons:
  "secretNames (v # vs) =
     (case vol_Secret v of None \<Rightarrow> [] | Some ref \<Rightarrow> [ref_Name ref]) @ secretNames vs"
  by (simp add: secretNames_def map_filter_simps split: option.splits)

lemma getConfigsAndSecrets_config_None:
  assumes "getConfigsAndSecrets_config d namespace vol configs w = (None, vol1, configs1, w1)"
  shows "configs1 = configs @ (case vol_Config vol of None \<Rightarrow> [] | Some ref \<Rightarrow> [ref_Name ref])"
    and "vol_Secret vol1 = vol_Secret vol"
  using assms
  by (auto simp: getConfigsAndSecrets_config_def split: option.splits prod.splits sum.splits)

lemma getConfigsAndSecrets_secret_None:
  assumes "getConfigsAndSecrets_secret d namespace vol secrets w = (None, vol1, secrets1, w1)"
  shows "secrets1 = secrets @ (case vol_Secret vol of None \<Rightarrow> [] | Some ref \<Rightarrow> [ref_Name ref])"
  using assms
  by (auto simp: getConfigsAndSecrets_secret_def split: option.splits prod.splits sum.splits)

lemma getConfigsAndSecrets_loop_names:
  "getConfigsAndSecrets_loop d namespace vols configs secrets w = ((cs, ss, None), vols', w')
     \<Longrightarrow> cs = configs @ configNames vols \<and> ss = secrets @ secretNames vols"
proof (induction vols arbitrary: configs secrets w vols' w')
  case Nil
  then show ?case by (simp add: configNames_def secretNames_def map_filter_simps)
next
  case (Cons vol vols)
  obtain e1 vol1 configs1 w1 where
    c: "getConfigsAndSecrets_config d namespace vol configs w = (e1, vol1, configs1, w1)"
    by (cases "getConfigsAndSecrets_config d namespace vol configs w") auto
  obtain e2 vol2 secrets2 w2 where
    s: "getConfigsAndSecrets_secret d namespace vol1 secrets w1 = (e2, vol2, secrets2, w2)"
    by (cases "getConfigsAndSecrets_secret d namespace vol1 secrets w1") auto
  obtain res vols2 w3 where
    l: "getConfigsAndSecrets_loop d namespace vols configs1 secrets2 w2 = (res, vols2, w3)"
    by (cases "getConfigsAndSecrets_loop d namespace vols configs1 secrets2 w2") auto
  from Cons.prems c have e1: "e1 = None" by (cases e1) auto
  from Cons.prems c s e1 have e2: "e2 = None" by (cases e2) auto
  from Cons.prems c s l e1 e2 have res: "res = (cs, ss, None)" by simp
  from Cons.IH [OF l [unfolded res]]
  have "cs = configs1 @ configNames vols" and "ss = secrets2 @ secretNames vols" by simp_all
  moreover note getConfigsAndSecrets_config_None [OF c [unfolded e1]]
    getConfigsAndSecrets_secret_None [OF s [unfolded e2]]
  ultimately show ?case by (simp add: configNames_Cons secretNames_Cons)
qed

lemma getConfigsAndSecrets_names:
  assumes "getConfigsAndSecrets d namespace app w = ((configs, secrets, None), app1, w1)"
  shows "configs = configNames (app_Volumes app)" and "secrets = secretNames (app_Volumes app)"
  using assms getConfigsAndSecrets_loop_names [of d namespace "app_Volumes app" "[]" "[]" w]
  by (auto simp: getConfigsAndSecrets_def split: prod.splits)

text \<open>
  Claim C1.  The application \<open>exampleApp\<close> refers to the Config \<^verbatim>\<open>cfg\<close>, which the
  store does not hold, so \<^verbatim>\<open>getConfigsAndSecrets\<close> fails.  \<^verbatim>\<open>Create\<close> drops that
  error: it refreshes both indexes with empty lists, stores the application in the
  resource store and returns it.
\<close>

theorem Create_drops_resolution_error:
  "fst (getConfigsAndSecrets fakeDeps ''t1'' exampleApp (fakeWorld [] [] [] [])) =
     ([], [], Some (ExternalError ''config not found'')) \<and>
   fst (Create fakeDeps ''t1'' exampleApp (fakeWorld [] [] [] [])) =
     Inr (exampleApp\<lparr>app_Version := ''1''\<rparr>) \<and>
   w_trace (snd (snd (Create fakeDeps ''t1'' exampleApp (fakeWorld [] [] [] [])))) =
     [StorageGetConfig ''t1'' ''cfg'' '''',
      RefreshConfigIndexByApp ''t1'' ''app'' [],
      RefreshSecretIndexByApp ''t1'' ''app'' [],
      StorageCreateApplication ''t1'' exampleApp,
      DBCreateApplication (exampleApp\<lparr>app_Version := ''1''\<rparr>)] \<and>
   fk_apps (w_state (snd (snd (Create fakeDeps ''t1'' exampleApp (fakeWorld [] [] [] []))))) =
     [((''t1'', ''app''), exampleApp\<lparr>app_Version := ''1''\<rparr>)]"
  by (simp add: Create_def getConfigsAndSecrets_def getConfigsAndSecrets_config_def
      getConfigsAndSecrets_secret_def call_def logError_def fakeDeps_def fakeFails_def
      fakeWorld_def exampleApp_def)

text \<open>
  Claim C3.  The volumes of \<open>secretApp\<close> refer to the Config \<^verbatim>\<open>cfg\<close>, which the
  store holds, and to the Secret \<^verbatim>\<open>sec\<close>, which it does not.  \<^verbatim>\<open>Create\<close> returns
  the application, yet both indexes were refreshed with the empty list: the Config
  name and the Secret name are both missing from the refresh.
\<close>

theorem Create_refreshes_index_with_nothing:
  "configNames (app_Volumes secretApp) = [''cfg''] \<and>
   secretNames (app_Volumes secretApp) = [''sec''] \<and>
   (\<exists>created. fst (Create fakeDeps ''t1'' secretApp (fakeWorld [] [cfgV2] [] [])) = Inr created) \<and>
   w_trace (snd (snd (Create fakeDeps ''t1'' secretApp (fakeWorld [] [cfgV2] [] [])))) =
     [StorageGetConfig ''t1'' ''cfg'' '''',
      StorageGetSecret ''t1'' ''sec'' '''',
      RefreshConfigIndexByApp ''t1'' ''app'' [],
      RefreshSecretIndexByApp ''t1'' ''app'' [],
      StorageCreateApplication ''t1''
        (secretApp\<lparr>app_Volumes :=
           [\<lparr>vol_Name = ''conf'',
             vol_Config = Some \<lparr>ref_Name = ''cfg'', ref_Version = ''v2''\<rparr>,
             vol_Secret = None\<rparr>,
            \<lparr>vol_Name = ''cert'',
             vol_Config = None,
             vol_Secret = Some \<lparr>ref_Name = ''sec'', ref_Version = ''''\<rparr>\<rparr>]\<rparr>),
      DBCreateApplication
        (secretApp\<lparr>app_Version := ''1'', app_Volumes :=
           [\<lparr>vol_Name = ''conf'',
             vol_Config = Some \<lparr>ref_Name = ''cfg'', ref_Version = ''v2''\<rparr>,
             vol_Secret = None\<rparr>,
            \<lparr>vol_Name = ''cert'',
             vol_Config = None,
             vol_Secret = Some \<lparr>ref_Name = ''sec'', ref_Version = ''''\<rparr>\<rparr>]\<rparr>)]"
  by (simp add: Create_def getConfigsAndSecrets_def getConfigsAndSecrets_config_def
      getConfigsAndSecrets_secret_def call_def logError_def fakeDeps_def fakeFails_def
      fakeWorld_def secretApp_def cfgV2_def configNames_def secretNames_def map_filter_simps)

lemma getConfigsAndSecrets_config_trace:
  assumes "getConfigsAndSecrets_config d namespace vol configs w = (e, vol1, configs1, w1)"
  shows "\<exists>evs. w_trace w1 = w_trace w @ evs \<and> filter isIndexCall evs = []"
  using assms
  by (auto simp: getConfigsAndSecrets_config_def call_def
      split: option.splits prod.splits sum.splits)

lemma getConfigsAndSecrets_secret_trace:
  assumes "getConfigsAndSecrets_secret d namespace vol secrets w = (e, vol1, secrets1, w1)"
  shows "\<exists>evs. w_trace w1 = w_trace w @ evs \<and> filter isIndexCall evs = []"
  using assms
  by (auto simp: getConfigsAndSecrets_secret_def call_def
      split: option.splits prod.splits sum.splits)

lemma getConfigsAndSecrets_loop_trace:
  "getConfigsAndSecrets_loop d namespace vols configs secrets w = (res, vols', w')
     \<Longrightarrow> \<exists>evs. w_trace w' = w_trace w @ evs \<and> filter isIndexCall evs = []"
proof (induction vols arbitrary: configs secrets w res vols' w')
  case Nil
  then show ?case by simp
next
  case (Cons vol vols)
  obtain e1 vol1 configs1 w1 where
    c: "getConfigsAndSecrets_config d namespace vol configs w = (e1, vol1, configs1, w1)"
    by (cases "getConfigsAndSecrets_config d namespace vol configs w") auto
  from getConfigsAndSecrets_config_trace [OF c] obtain evs1 where
    t1: "w_trace w1 = w_trace w @ evs1" "filter isIndexCall evs1 = []" by blast
  show ?case
  proof (cases e1)
    case (Some err)
    with Cons.prems c have "w' = w1" by simp
    with t1 show ?thesis by blast
  next
    case None
    obtain e2 vol2 secrets2 w2 where
      s: "getConfigsAndSecrets_secret d namespace vol1 secrets w1 = (e2, vol2, secrets2, w2)"
      by (cases "getConfigsAndSecrets_secret d namespace vol1 secrets w1") auto
    from getConfigsAndSecrets_secret_trace [OF s] obtain evs2 where
      t2: "w_trace w2 = w_trace w1 @ evs2" "filter isIndexCall evs2 = []" by blast
    show ?thesis
    proof (cases e2)
      case (Some err)
      with Cons.prems c s None have "w' = w2" by simp
      with t1 t2 have "w_trace w' = w_trace w @ (evs1 @ evs2)"
        and "filter isIndexCall (evs1 @ evs2) = []" by simp_all
      then show ?thesis by blast
    next
      case e2: None
      obtain res3 vols3 w3 where
        l: "getConfigsAndSecrets_loop d namespace vols configs1 secrets2 w2 = (res3, vols3, w3)"
        by (cases "getConfigsAndSecrets_loop d namespace vols configs1 secrets2 w2") auto
      from Cons.IH [OF l] obtain evs3 where
        t3: "w_trace w3 = w_trace w2 @ evs3" "filter isIndexCall evs3 = []" by blast
      from Cons.prems c s l None e2 have "w' = w3" by simp
      with t1 t2 t3 have "w_trace w' = w_trace w @ (evs1 @ evs2 @ evs3)"
        and "filter isIndexCall (evs1 @ evs2 @ evs3) = []" by simp_all
      then show ?thesis by blast
    qed
  qed
qed

lemma getConfigsAndSecrets_trace:
  assumes "getConfigsAndSecrets d namespace app w = (res, app1, w1)"
  shows "\<exists>evs. w_trace w1 = w_trace w @ evs \<and> filter isIndexCall evs = []"
proof -
  obtain r vols' w' where
    l: "getConfigsAndSecrets_loop d namespace (app_Volumes app) [] [] w = (r, vols', w')"
    by (cases "getConfigsAndSecrets_loop d namespace (app_Volumes app) [] [] w") auto
  with assms have "w1 = w'" by (simp add: getConfigsAndSecrets_def)
  with getConfigsAndSecrets_loop_trace [OF l] show ?thesis by simp
qed

text \<open>
  The half of claim C3 that holds: when \<^verbatim>\<open>Update\<close> returns an application, the calls
  it made to the index service are exactly one refresh of the Config index with the
  names of the Configs the volumes refer to, and one refresh of the Secret index with
  the names of the Secrets.
\<close>

lemma Update_refreshes_index_with_references:
  assumes "Update d namespace app w = (Inr newApp, app1, w')"
  shows "filter isIndexCall (drop (length (w_trace w)) (w_trace w')) =
           [RefreshConfigIndexByApp namespace (app_Name newApp) (configNames (app_Volumes app)),
            RefreshSecretIndexByApp namespace (app_Name newApp) (secretNames (app_Volumes app))]"
proof -
  from assms have v: "validName app = None"
    by (cases "validName app") (auto simp: Update_def)
  obtain configs secrets e a1 w1 where
    g: "getConfigsAndSecrets d namespace app w = ((configs, secrets, e), a1, w1)"
    by (cases "getConfigsAndSecrets d namespace app w") auto
  from assms v g have e: "e = None" by (cases e) (auto simp: Update_def)
  note n = getConfigsAndSecrets_names [OF g [unfolded e]]
  from getConfigsAndSecrets_trace [OF g] obtain evs where
    t: "w_trace w1 = w_trace w @ evs" "filter isIndexCall evs = []" by blast
  from assms v g e
  have "\<exists>post. w_trace w' = w_trace w1 @
          [StorageUpdateApplication namespace a1,
           RefreshConfigIndexByApp namespace (app_Name newApp) configs,
           RefreshSecretIndexByApp namespace (app_Name newApp) secrets] @ post \<and>
          filter isIndexCall post = []"
    by (auto simp: Update_def call_def logError_def
        split: prod.splits sum.splits option.splits if_splits)
  then obtain post where
    p: "w_trace w' = w_trace w1 @
          [StorageUpdateApplication namespace a1,
           RefreshConfigIndexByApp namespace (app_Name newApp) configs,
           RefreshSecretIndexByApp namespace (app_Name newApp) secrets] @ post"
       "filter isIndexCall post = []"
    by blast
  show ?thesis by (simp add: p t n)
qed

text \<open>
  Claim C2, as the code has it.  Once the resource store has taken the update, an
  error of either index refresh is what \<^verbatim>\<open>Update\<close> returns, and the resource store
  is not called again (the update is not taken back).  Only the history store's
  failure is swallowed: when both refreshes succeed the updated application is
  returned whatever the history store answers.
\<close>

theorem Update_index_failure_is_fatal:
  assumes "validName app = None"
    and "getConfigsAndSecrets d namespace app w = ((configs, secrets, None), app1, w1)"
    and "storage_UpdateApplication d namespace app1 (w_state w1) = (Inr newApp, s2)"
    and "indexService_RefreshConfigIndexByApp d namespace (app_Name newApp) configs s2 = (r1, s3)"
    and "indexService_RefreshSecretIndexByApp d namespace (app_Name newApp) secrets s3 = (r2, s4)"
  shows "fst (Update d namespace app w) =
           (case r1 of
              Some err \<Rightarrow> Inl err
            | None \<Rightarrow> (case r2 of Some err \<Rightarrow> Inl err | None \<Rightarrow> Inr newApp)) \<and>
         filter isStorageCall
           (drop (length (w_trace w1)) (w_trace (snd (snd (Update d namespace app w))))) =
           [StorageUpdateApplication namespace app1]"
  using assms
  by (simp add: Update_def call_def logError_def split: prod.splits option.splits)

lemma exampleApp_valid: "validName exampleApp = None"
  by (simp add: validName_def exampleApp_def)

lemma exampleApp_resolution:
  "getConfigsAndSecrets fakeDeps ''t1'' exampleApp (fakeWorld apps [cfgV2] [] failing) =
     (([''cfg''], [], None), resolvedExampleApp,
      \<lparr>w_state = w_state (fakeWorld apps [cfgV2] [] failing),
       w_trace = [StorageGetConfig ''t1'' ''cfg'' '''']\<rparr>)"
  by (simp add: getConfigsAndSecrets_def getConfigsAndSecrets_config_def
      getConfigsAndSecrets_secret_def call_def fakeDeps_def fakeWorld_def exampleApp_def
      resolvedExampleApp_def cfgV2_def)

theorem Update_index_failure_is_fatal_witness:
  "fst (Update fakeDeps ''t1'' exampleApp
          (fakeWorld [((''t1'', ''app''), exampleApp)] [cfgV2] [] [''RefreshSecretIndexByApp''])) =
     Inl (ExternalError ''secret index is unavailable'') \<and>
   fst (Update fakeDeps ''t1'' exampleApp
          (fakeWorld [((''t1'', ''app''), exampleApp)] [cfgV2] [] [''dbStorage.CreateApplication''])) =
     Inr updatedExampleApp"
proof -
  have update: "storage_UpdateApplication fakeDeps ''t1'' resolvedExampleApp
      (w_state \<lparr>w_state = w_state (fakeWorld [((''t1'', ''app''), exampleApp)] [cfgV2] [] failing),
                w_trace = [StorageGetConfig ''t1'' ''cfg'' '''']\<rparr>) =
      (Inr updatedExampleApp,
       w_state (fakeWorld [((''t1'', ''app''), updatedExampleApp), ((''t1'', ''app''), exampleApp)]
                  [cfgV2] [] failing))" for failing
    by (simp add: fakeDeps_def fakeWorld_def exampleApp_def resolvedExampleApp_def
        updatedExampleApp_def)
  have config_ok: "indexService_RefreshConfigIndexByApp fakeDeps ''t1'' (app_Name updatedExampleApp)
      [''cfg'']
      (w_state (fakeWorld [((''t1'', ''app''), updatedExampleApp), ((''t1'', ''app''), exampleApp)]
                  [cfgV2] [] [f])) =
      (None,
       w_state (fakeWorld [((''t1'', ''app''), updatedExampleApp), ((''t1'', ''app''), exampleApp)]
                  [cfgV2] [] [f]))" if "f \<noteq> ''RefreshConfigIndexByApp''" for f
    using that by (simp add: fakeDeps_def fakeWorld_def fakeFails_def)
  have secret_fails: "indexService_RefreshSecretIndexByApp fakeDeps ''t1'' (app_Name updatedExampleApp)
      []
      (w_state (fakeWorld [((''t1'', ''app''), updatedExampleApp), ((''t1'', ''app''), exampleApp)]
                  [cfgV2] [] [''RefreshSecretIndexByApp''])) =
      (Some (ExternalError ''secret index is unavailable''),
       w_state (fakeWorld [((''t1'', ''app''), updatedExampleApp), ((''t1'', ''app''), exampleApp)]
                  [cfgV2] [] [''RefreshSecretIndexByApp'']))"
    by (simp add: fakeDeps_def fakeWorld_def fakeFails_def)
  have secret_ok: "indexService_RefreshSecretIndexByApp fakeDeps ''t1'' (app_Name updatedExampleApp)
      []
      (w_state (fakeWorld [((''t1'', ''app''), updatedExampleApp), ((''t1'', ''app''), exampleApp)]
                  [cfgV2] [] [''dbStorage.CreateApplication''])) =
      (None,
       w_state (fakeWorld [((''t1'', ''app''), updatedExampleApp), ((''t1'', ''app''), exampleApp)]
                  [cfgV2] [] [''dbStorage.CreateApplication'']))"
    by (simp add: fakeDeps_def fakeWorld_def fakeFails_def)
  have c1: "''RefreshSecretIndexByApp'' \<noteq> ''RefreshConfigIndexByApp''"
    and c2: "''dbStorage.CreateApplication'' \<noteq> ''RefreshConfigIndexByApp''" by simp_all
  from Update_index_failure_is_fatal
         [OF exampleApp_valid exampleApp_resolution update config_ok [OF c1] secret_fails]
       Update_index_failure_is_fatal
         [OF exampleApp_valid exampleApp_resolution update config_ok [OF c2] secret_ok]
  show ?thesis by simp
qed

text \<open>
  Claim C2 as it is stated fails: the resource store takes the update of \<open>exampleApp\<close>
  (the stored application has its new version), the refresh of the Config index fails,
  and \<^verbatim>\<open>Update\<close> returns that error instead of the updated application.
\<close>

theorem Update_index_failure_counterexample:
  "w_trace (snd (snd (Update fakeDeps ''t1'' exampleApp
      (fakeWorld [((''t1'', ''app''), exampleApp)] [cfgV2] [] [''RefreshConfigIndexByApp''])))) =
     [StorageGetConfig ''t1'' ''cfg'' '''',
      StorageUpdateApplication ''t1''
        (exampleApp\<lparr>app_Volumes :=
           [\<lparr>vol_Name = ''vol'',
             vol_Config = Some \<lparr>ref_Name = ''cfg'', ref_Version = ''v2''\<rparr>,
             vol_Secret = None\<rparr>]\<rparr>),
      RefreshConfigIndexByApp ''t1'' ''app'' [''cfg'']] \<and>
   map_option app_Version
     (map_of (fk_apps (w_state (snd (snd (Update fakeDeps ''t1'' exampleApp
        (fakeWorld [((''t1'', ''app''), exampleApp)] [cfgV2] [] [''RefreshConfigIndexByApp'']))))))
        (''t1'', ''app'')) = Some ''1'' \<and>
   fst (Update fakeDeps ''t1'' exampleApp
          (fakeWorld [((''t1'', ''app''), exampleApp)] [cfgV2] [] [''RefreshConfigIndexByApp''])) =
     Inl (ExternalError ''config index is unavailable'')"
  by (simp add: Update_def validName_def getConfigsAndSecrets_def getConfigsAndSecrets_config_def
      getConfigsAndSecrets_secret_def call_def logError_def fakeDeps_def fakeFails_def
      fakeWorld_def exampleApp_def cfgV2_def)

section \<open>What reference resolution does to the caller's application\<close>

lemma getConfigsAndSecrets_config_blank:
  assumes "getConfigsAndSecrets_config d namespace vol configs w = (e, vol1, configs1, w1)"
  shows "blankVersions vol1 = blankVersions vol"
  using assms
  by (auto simp: getConfigsAndSecrets_config_def blankVersions_def
      split: option.splits prod.splits sum.splits)

lemma getConfigsAndSecrets_secret_blank:
  assumes "getConfigsAndSecrets_secret d namespace vol secrets w = (e, vol1, secrets1, w1)"
  shows "blankVersions vol1 = blankVersions vol"
  using assms
  by (auto simp: getConfigsAndSecrets_secret_def blankVersions_def
      split: option.splits prod.splits sum.splits)

lemma getConfigsAndSecrets_loop_blank:
  "getConfigsAndSecrets_loop d namespace vols configs secrets w = (res, vols', w')
     \<Longrightarrow> map blankVersions vols' = map blankVersions vols"
proof (induction vols arbitrary: configs secrets w res vols' w')
  case Nil
  then show ?case by simp
next
  case (Cons vol vols)
  obtain e1 vol1 configs1 w1 where
    c: "getConfigsAndSecrets_config d namespace vol configs w = (e1, vol1, configs1, w1)"
    by (cases "getConfigsAndSecrets_config d namespace vol configs w") auto
  note b1 = getConfigsAndSecrets_config_blank [OF c]
  show ?case
  proof (cases e1)
    case (Some err)
    with Cons.prems c have "vols' = vol1 # vols" by simp
    with b1 show ?thesis by simp
  next
    case None
    obtain e2 vol2 secrets2 w2 where
      s: "getConfigsAndSecrets_secret d namespace vol1 secrets w1 = (e2, vol2, secrets2, w2)"
      by (cases "getConfigsAndSecrets_secret d namespace vol1 secrets w1") auto
    note b2 = getConfigsAndSecrets_secret_blank [OF s]
    show ?thesis
    proof (cases e2)
      case (Some err)
      with Cons.prems c s None have "vols' = vol2 # vols" by simp
      with b1 b2 show ?thesis by simp
    next
      case e2: None
      obtain res3 vols3 w3 where
        l: "getConfigsAndSecrets_loop d namespace vols configs1 secrets2 w2 = (res3, vols3, w3)"
        by (cases "getConfigsAndSecrets_loop d namespace vols configs1 secrets2 w2") auto
      from Cons.prems c s l None e2 have "vols' = vol2 # vols3" by simp
      with b1 b2 Cons.IH [OF l] show ?thesis by simp
    qed
  qed
qed

lemma getConfigsAndSecrets_config_fetched:
  assumes "\<forall>n v s. snd (storage_GetConfig d namespace n v s) = s"
    and "getConfigsAndSecrets_config d namespace vol configs w = (None, vol1, configs1, w1)"
  shows "vol1 = vol\<lparr>vol_Config :=
                   map_option (fetchedConfigVersion d namespace (w_state w)) (vol_Config vol)\<rparr> \<and>
         w_state w1 = w_state w"
proof (cases "vol_Config vol")
  case None
  with assms(2) show ?thesis by (simp add: getConfigsAndSecrets_config_def)
next
  case (Some ref)
  obtain r s1 where g: "storage_GetConfig d namespace (ref_Name ref) '''' (w_state w) = (r, s1)"
    by (cases "storage_GetConfig d namespace (ref_Name ref) '''' (w_state w)")
  with assms(1) have s1: "s1 = w_state w" by (metis snd_conv)
  from assms(2) Some g obtain config where r: "r = Inr config"
    by (cases r) (auto simp: getConfigsAndSecrets_config_def call_def)
  from assms(2) Some g r s1 show ?thesis
    by (auto simp: getConfigsAndSecrets_config_def call_def fetchedConfigVersion_def)
qed

lemma getConfigsAndSecrets_secret_fetched:
  assumes "\<forall>n v s. snd (storage_GetSecret d namespace n v s) = s"
    and "getConfigsAndSecrets_secret d namespace vol secrets w = (None, vol1, secrets1, w1)"
  shows "vol1 = vol\<lparr>vol_Secret :=
                   map_option (fetchedSecretVersion d namespace (w_state w)) (vol_Secret vol)\<rparr> \<and>
         w_state w1 = w_state w"
proof (cases "vol_Secret vol")
  case None
  with assms(2) show ?thesis by (simp add: getConfigsAndSecrets_secret_def)
next
  case (Some ref)
  obtain r s1 where g: "storage_GetSecret d namespace (ref_Name ref) '''' (w_state w) = (r, s1)"
    by (cases "storage_GetSecret d namespace (ref_Name ref) '''' (w_state w)")
  with assms(1) have s1: "s1 = w_state w" by (metis snd_conv)
  from assms(2) Some g obtain secret where r: "r = Inr secret"
    by (cases r) (auto simp: getConfigsAndSecrets_secret_def call_def)
  from assms(2) Some g r s1 show ?thesis
    by (auto simp: getConfigsAndSecrets_secret_def call_def fetchedSecretVersion_def)
qed

lemma getConfigsAndSecrets_loop_fetched:
  assumes "\<forall>n v s. snd (storage_GetConfig d namespace n v s) = s"
    and "\<forall>n v s. snd (storage_GetSecret d namespace n v s) = s"
  shows "getConfigsAndSecrets_loop d namespace vols configs secrets w = ((cs, ss, None), vols', w')
     \<Longrightarrow> vols' = map (withFetchedVersions d namespace (w_state w)) vols \<and> w_state w' = w_state w"
proof (induction vols arbitrary: configs secrets w vols' w')
  case Nil
  then show ?case by simp
next
  case (Cons vol vols)
  obtain e1 vol1 configs1 w1 where
    c: "getConfigsAndSecrets_config d namespace vol configs w = (e1, vol1, configs1, w1)"
    by (cases "getConfigsAndSecrets_config d namespace vol configs w") auto
  obtain e2 vol2 secrets2 w2 where
    s: "getConfigsAndSecrets_secret d namespace vol1 secrets w1 = (e2, vol2, secrets2, w2)"
    by (cases "getConfigsAndSecrets_secret d namespace vol1 secrets w1") auto
  obtain res vols2 w3 where
    l: "getConfigsAndSecrets_loop d namespace vols configs1 secrets2 w2 = (res, vols2, w3)"
    by (cases "getConfigsAndSecrets_loop d namespace vols configs1 secrets2 w2") auto
  from Cons.prems c have e1: "e1 = None" by (cases e1) auto
  from Cons.prems c s e1 have e2: "e2 = None" by (cases e2) auto
  from Cons.prems c s l e1 e2 have res: "res = (cs, ss, None)"
    and v: "vols' = vol2 # vols2" and w: "w' = w3" by simp_all
  note f1 = getConfigsAndSecrets_config_fetched [OF assms(1) c [unfolded e1]]
  note f2 = getConfigsAndSecrets_secret_fetched [OF assms(2) s [unfolded e2]]
  note ih = Cons.IH [OF l [unfolded res]]
  from f1 f2 have "vol2 = withFetchedVersions d namespace (w_state w) vol"
    by (simp add: withFetchedVersions_def)
  moreover from f1 f2 have "w_state w2 = w_state w" by simp
  ultimately show ?case using ih v w by simp
qed

lemma Create_argument:
  "fst (snd (Create d namespace app w)) = fst (snd (getConfigsAndSecrets d namespace app w))"
  by (simp add: Create_def split: prod.splits option.splits sum.splits)

lemma Update_argument:
  "fst (snd (Update d namespace app w)) =
     (if validName app = None then fst (snd (getConfigsAndSecrets d namespace app w)) else app)"
  by (simp add: Update_def split: prod.splits option.splits sum.splits)

text \<open>
  Claim C10.  The application the caller holds after \<^verbatim>\<open>Create\<close> is the one that
  \<^verbatim>\<open>getConfigsAndSecrets\<close> leaves behind, whatever the later steps answer (the
  collaborators are arbitrary, so this covers a failed refresh and a failed persist);
  the same holds for \<^verbatim>\<open>Update\<close> once the names are valid.  That application differs
  from the argument in nothing but the versions of the references of its volumes.
  When all fetches succeed (and fetching leaves the store as it is), every reference
  carries the version the store holds for it.
\<close>

theorem resolution_overwrites_versions_in_place:
  "fst (snd (Create d namespace app w)) = fst (snd (getConfigsAndSecrets d namespace app w)) \<and>
   (validName app = None \<longrightarrow>
      fst (snd (Update d namespace app w)) = fst (snd (getConfigsAndSecrets d namespace app w))) \<and>
   (fst (snd (getConfigsAndSecrets d namespace app w)))\<lparr>app_Volumes := app_Volumes app\<rparr> = app \<and>
   map blankVersions (app_Volumes (fst (snd (getConfigsAndSecrets d namespace app w)))) =
     map blankVersions (app_Volumes app) \<and>
   ((\<forall>n v s. snd (storage_GetConfig d namespace n v s) = s) \<and>
    (\<forall>n v s. snd (storage_GetSecret d namespace n v s) = s) \<and>
    snd (snd (fst (getConfigsAndSecrets d namespace app w))) = None \<longrightarrow>
      fst (snd (getConfigsAndSecrets d namespace app w)) =
        app\<lparr>app_Volumes := map (withFetchedVersions d namespace (w_state w)) (app_Volumes app)\<rparr>)"
proof -
  obtain cs ss e vols' w' where
    l: "getConfigsAndSecrets_loop d namespace (app_Volumes app) [] [] w = ((cs, ss, e), vols', w')"
    by (cases "getConfigsAndSecrets_loop d namespace (app_Volumes app) [] [] w") auto
  then have g: "getConfigsAndSecrets d namespace app w = ((cs, ss, e), app\<lparr>app_Volumes := vols'\<rparr>, w')"
    by (simp add: getConfigsAndSecrets_def)
  have 1: "fst (snd (Create d namespace app w)) = fst (snd (getConfigsAndSecrets d namespace app w))"
    by (rule Create_argument)
  have 2: "validName app = None \<longrightarrow>
      fst (snd (Update d namespace app w)) = fst (snd (getConfigsAndSecrets d namespace app w))"
    by (simp add: Update_argument)
  have 3: "(fst (snd (getConfigsAndSecrets d namespace app w)))\<lparr>app_Volumes := app_Volumes app\<rparr> = app"
    by (simp add: g)
  have 4: "map blankVersions (app_Volumes (fst (snd (getConfigsAndSecrets d namespace app w)))) =
     map blankVersions (app_Volumes app)"
    using getConfigsAndSecrets_loop_blank [OF l] by (simp add: g)
  have 5: "(\<forall>n v s. snd (storage_GetConfig d namespace n v s) = s) \<and>
    (\<forall>n v s. snd (storage_GetSecret d namespace n v s) = s) \<and>
    snd (snd (fst (getConfigsAndSecrets d namespace app w))) = None \<longrightarrow>
      fst (snd (getConfigsAndSecrets d namespace app w)) =
        app\<lparr>app_Volumes := map (withFetchedVersions d namespace (w_state w)) (app_Volumes app)\<rparr>"
  proof (intro impI, elim conjE)
    assume a: "\<forall>n v s. snd (storage_GetConfig d namespace n v s) = s"
      and b: "\<forall>n v s. snd (storage_GetSecret d namespace n v s) = s"
      and "snd (snd (fst (getConfigsAndSecrets d namespace app w))) = None"
    then have "e = None" by (simp add: g)
    from getConfigsAndSecrets_loop_fetched [OF a b l [unfolded this]]
    show "fst (snd (getConfigsAndSecrets d namespace app w)) =
        app\<lparr>app_Volumes := map (withFetchedVersions d namespace (w_state w)) (app_Volumes app)\<rparr>"
      by (simp add: g)
  qed
  from 1 2 3 4 5 show ?thesis by blast
qed

theorem resolution_overwrites_versions_in_place_witness:
  "fst (Create fakeDeps ''t1'' exampleApp (fakeWorld [] [cfgV2] [] [''RefreshConfigIndexByApp''])) =
     Inl (ExternalError ''config index is unavailable'') \<and>
   fst (snd (Create fakeDeps ''t1'' exampleApp
               (fakeWorld [] [cfgV2] [] [''RefreshConfigIndexByApp'']))) = resolvedExampleApp \<and>
   validName exampleApp = None \<and>
   fst (Update fakeDeps ''t1'' exampleApp (fakeWorld [] [cfgV2] [] [])) =
     Inl (ExternalError ''application not found'') \<and>
   fst (snd (Update fakeDeps ''t1'' exampleApp (fakeWorld [] [cfgV2] [] []))) = resolvedExampleApp"
proof -
  have reads: "(\<forall>n v s. snd (storage_GetConfig fakeDeps ''t1'' n v s) = s) \<and>
               (\<forall>n v s. snd (storage_GetSecret fakeDeps ''t1'' n v s) = s) \<and>
               snd (snd (fst (getConfigsAndSecrets fakeDeps ''t1'' exampleApp
                                (fakeWorld [] [cfgV2] [] failing)))) = None" for failing
    by (simp add: exampleApp_resolution) (simp add: fakeDeps_def split: option.splits)
  have fetched: "exampleApp\<lparr>app_Volumes :=
        map (withFetchedVersions fakeDeps ''t1'' (w_state (fakeWorld [] [cfgV2] [] failing)))
          (app_Volumes exampleApp)\<rparr> = resolvedExampleApp" for failing
    by (simp add: withFetchedVersions_def fetchedConfigVersion_def fakeDeps_def fakeWorld_def
        exampleApp_def resolvedExampleApp_def cfgV2_def)
  note create = resolution_overwrites_versions_in_place
    [of fakeDeps "''t1''" exampleApp "fakeWorld [] [cfgV2] [] [''RefreshConfigIndexByApp'']"]
  note update = resolution_overwrites_versions_in_place
    [of fakeDeps "''t1''" exampleApp "fakeWorld [] [cfgV2] [] []"]
  from create reads [of "[''RefreshConfigIndexByApp'']"]
  have "fst (snd (Create fakeDeps ''t1'' exampleApp
               (fakeWorld [] [cfgV2] [] [''RefreshConfigIndexByApp'']))) =
        exampleApp\<lparr>app_Volumes :=
          map (withFetchedVersions fakeDeps ''t1''
                 (w_state (fakeWorld [] [cfgV2] [] [''RefreshConfigIndexByApp''])))
            (app_Volumes exampleApp)\<rparr>"
    by metis
  then have c: "fst (snd (Create fakeDeps ''t1'' exampleApp
               (fakeWorld [] [cfgV2] [] [''RefreshConfigIndexByApp'']))) = resolvedExampleApp"
    by (simp only: fetched)
  from update reads [of "[]"] exampleApp_valid
  have "fst (snd (Update fakeDeps ''t1'' exampleApp (fakeWorld [] [cfgV2] [] []))) =
        exampleApp\<lparr>app_Volumes :=
          map (withFetchedVersions fakeDeps ''t1'' (w_state (fakeWorld [] [cfgV2] [] [])))
            (app_Volumes exampleApp)\<rparr>"
    by metis
  then have u: "fst (snd (Update fakeDeps ''t1'' exampleApp (fakeWorld [] [cfgV2] [] []))) =
                resolvedExampleApp"
    by (simp only: fetched)
  have cf: "fst (Create fakeDeps ''t1'' exampleApp
                   (fakeWorld [] [cfgV2] [] [''RefreshConfigIndexByApp''])) =
              Inl (ExternalError ''config index is unavailable'')"
    by (simp add: Create_def exampleApp_resolution call_def)
      (simp add: fakeDeps_def fakeFails_def fakeWorld_def)
  have uf: "fst (Update fakeDeps ''t1'' exampleApp (fakeWorld [] [cfgV2] [] [])) =
              Inl (ExternalError ''application not found'')"
    by (simp add: Update_def exampleApp_valid exampleApp_resolution call_def)
      (simp add: fakeDeps_def fakeWorld_def resolvedExampleApp_def exampleApp_def)
  from c u cf uf exampleApp_valid show ?thesis by blast
qed

section \<open>Properties of CreateWithBase\<close>








end
